theory Spec2Isabelle
  imports Complex_Main "HOL-Library.AList" "HOL-Library.Sublist"
begin

section \<open>JavaScript values\<close>

text \<open>
  The values that flow through \<^verbatim>\<open>src/worker.ts\<close> untyped (\<^verbatim>\<open>unknown\<close>, \<^verbatim>\<open>any\<close>):
  the result of \<^verbatim>\<open>request.json()\<close>, of \<^verbatim>\<open>res.json()\<close>, the data a schema returns and
  the values bound to a statement. A number is the real value of a double; NaN and the
  infinities are outside the model. An object is an association list;
  \<^verbatim>\<open>o.k\<close> on an object without the key is \<^verbatim>\<open>undefined\<close>.
\<close>

datatype js =
    Undefined
  | Null
  | Bool bool
  | Num real
  | Str string
  | Arr "js list"
  | Obj "(string \<times> js) list"

fun getprop :: "js \<Rightarrow> string \<Rightarrow> js" where
  "getprop (Obj kvs) k = (case map_of kvs k of None \<Rightarrow> Undefined | Some v \<Rightarrow> v)"
| "getprop _ k = Undefined"

text \<open>
  The arithmetic of the source is that of IEEE 754 binary64: the result of an operation
  is the exact result rounded to the nearest double, ties to the even significand.
  \<open>to_double\<close> rounds a real: the spacing of the doubles around \<open>x\<close> is
  \<open>2 powi (e - 52)\<close> for the binary exponent \<open>e\<close> of \<open>x\<close>, and the spacing of the
  subnormal numbers below the least exponent \<open>- 1022\<close>. A result beyond the largest
  double is an infinity in the source; the model keeps the rounded real, which compares
  with every double as the infinity does.
\<close>

definition round_ties_even :: "real \<Rightarrow> int" where
  "round_ties_even x =
     (let f = \<lfloor>x\<rfloor> in
      if x - of_int f < 1 / 2 then f
      else if 1 / 2 < x - of_int f then f + 1
      else if even f then f else f + 1)"

definition to_double :: "real \<Rightarrow> real" where
  "to_double x =
     (if x = 0 then 0
      else (let e = max \<lfloor>log 2 \<bar>x\<bar>\<rfloor> (- 1022); ulp = 2 powi (e - 52)
            in of_int (round_ties_even (x / ulp)) * ulp))"

text \<open>The product \<^verbatim>\<open>a * b\<close> of two numbers.\<close>

definition double_times :: "real \<Rightarrow> real \<Rightarrow> real" where
  "double_times a b = to_double (a * b)"

text \<open>\<^verbatim>\<open>Array.prototype.join\<close> on an array of strings.\<close>

fun join :: "string \<Rightarrow> string list \<Rightarrow> string" where
  "join sep [] = []"
| "join sep [x] = x"
| "join sep (x # y # ys) = x @ sep @ join sep (y # ys)"

text \<open>The decimal text of a non-negative integer, as \<^verbatim>\<open>join\<close> renders an array index.\<close>

definition digit :: "nat \<Rightarrow> char" where
  "digit n = ''0123456789'' ! n"

fun string_of_nat :: "nat \<Rightarrow> string" where
  "string_of_nat n =
     (if n < 10 then [digit n] else string_of_nat (n div 10) @ [digit (n mod 10)])"

declare string_of_nat.simps [simp del]

section \<open>The schema library\<close>

text \<open>
  \<^verbatim>\<open>zod\<close> is an external package; only the part that \<^verbatim>\<open>src/worker.ts\<close> uses is
  modelled, after the library's documented behaviour: \<^verbatim>\<open>safeParse\<close> never throws, a
  type mismatch yields one issue and skips the refinements of that value, an object
  validates every declared key and an array every element, the issues of a child carry
  the key or index in front of their path, and unknown keys are dropped from the data.
  What depends on the library's version or on regular expressions is a parameter: the
  default message of each kind of issue, the email and URL tests and the coercion
  \<^verbatim>\<open>Number(x)\<close> (\<open>None\<close> when it gives NaN).
\<close>

datatype path_elem = Key string | Idx nat

datatype ZodIssue = ZodIssue (path: "path_elem list") (message: string)

datatype violation =
    invalid_type string js
  | invalid_enum_value "string list" string
  | too_small_string nat string
  | invalid_email string
  | invalid_url string
  | not_integer real
  | not_positive real

record zod =
  defaultMessage :: "violation \<Rightarrow> string"
  isEmail :: "string \<Rightarrow> bool"
  isUrl :: "string \<Rightarrow> bool"
  toNumber :: "js \<Rightarrow> real option"

datatype str_check = StrMin nat "string option" | StrEmail | StrUrl

datatype num_check = NumInt "string option" | NumPositive

datatype zschema =
    ZString "str_check list"
  | ZNumber bool "num_check list"
  | ZEnum "string list"
  | ZOptional zschema
  | ZObject "(string \<times> zschema) list"
  | ZArray zschema

definition issue :: "zod \<Rightarrow> string option \<Rightarrow> violation \<Rightarrow> ZodIssue" where
  "issue z custom v = ZodIssue [] (case custom of Some m \<Rightarrow> m | None \<Rightarrow> defaultMessage z v)"

fun under :: "path_elem \<Rightarrow> ZodIssue \<Rightarrow> ZodIssue" where
  "under p (ZodIssue ps m) = ZodIssue (p # ps) m"

fun str_check_issues :: "zod \<Rightarrow> string \<Rightarrow> str_check \<Rightarrow> ZodIssue list" where
  "str_check_issues z s (StrMin n m) =
     (if length s < n then [issue z m (too_small_string n s)] else [])"
| "str_check_issues z s StrEmail =
     (if isEmail z s then [] else [issue z None (invalid_email s)])"
| "str_check_issues z s StrUrl =
     (if isUrl z s then [] else [issue z None (invalid_url s)])"

fun num_check_issues :: "zod \<Rightarrow> real \<Rightarrow> num_check \<Rightarrow> ZodIssue list" where
  "num_check_issues z r (NumInt m) =
     (if r = of_int \<lfloor>r\<rfloor> then [] else [issue z m (not_integer r)])"
| "num_check_issues z r NumPositive =
     (if 0 < r then [] else [issue z None (not_positive r)])"

text \<open>
  One pass over the value: the issues found, in the order the library reports them
  (declaration order of the keys, index order of the elements), and the output data.
\<close>

fun parse :: "zod \<Rightarrow> zschema \<Rightarrow> js \<Rightarrow> ZodIssue list \<times> js" where
  "parse z (ZString cs) v =
     (case v of
        Str s \<Rightarrow> (concat (map (str_check_issues z s) cs), v)
      | _ \<Rightarrow> ([issue z None (invalid_type ''string'' v)], v))"
| "parse z (ZNumber coerce cs) v =
     (case (if coerce then (case toNumber z v of Some r \<Rightarrow> Num r | None \<Rightarrow> Undefined) else v) of
        Num r \<Rightarrow> (concat (map (num_check_issues z r) cs), Num r)
      | _ \<Rightarrow> ([issue z None (invalid_type ''number'' v)], v))"
| "parse z (ZEnum vals) v =
     (case v of
        Str s \<Rightarrow> (if s \<in> set vals then ([], v)
                  else ([issue z None (invalid_enum_value vals s)], v))
      | _ \<Rightarrow> ([issue z None (invalid_type ''enum'' v)], v))"
| "parse z (ZOptional sch) v =
     (if v = Undefined then ([], Undefined) else parse z sch v)"
| "parse z (ZObject shape) v =
     (case v of
        Obj kvs \<Rightarrow>
          (concat (map (\<lambda>(k, sch). map (under (Key k)) (fst (parse z sch (getprop v k)))) shape),
           Obj (filter (\<lambda>(k, d). d \<noteq> Undefined)
                  (map (\<lambda>(k, sch). (k, snd (parse z sch (getprop v k)))) shape)))
      | _ \<Rightarrow> ([issue z None (invalid_type ''object'' v)], v))"
| "parse z (ZArray sch) v =
     (case v of
        Arr xs \<Rightarrow>
          (concat (map (\<lambda>(i, x). map (under (Idx i)) (fst (parse z sch x))) (enumerate 0 xs)),
           Arr (map (\<lambda>x. snd (parse z sch x)) xs))
      | _ \<Rightarrow> ([issue z None (invalid_type ''array'' v)], v))"

text \<open>\<^verbatim>\<open>schema.safeParse(json)\<close>: \<open>Inl\<close> is \<^verbatim>\<open>{success: false, error}\<close> with the issues
  of the error, \<open>Inr\<close> is \<^verbatim>\<open>{success: true, data}\<close>.\<close>

definition safeParse :: "zod \<Rightarrow> zschema \<Rightarrow> js \<Rightarrow> ZodIssue list + js" where
  "safeParse z schema json =
     (case parse z schema json of (is, d) \<Rightarrow> if is = [] then Inr d else Inl is)"

section \<open>Errors and responses\<close>

text \<open>
  Modelled from the spec: the module \<^verbatim>\<open>./errors\<close> (the class \<^verbatim>\<open>ErrorRes\<close> and its six
  subclasses) is imported by \<^verbatim>\<open>src/worker.ts\<close> and is not among the sources. The boundary
  reads \<^verbatim>\<open>error.name\<close>, \<^verbatim>\<open>error.message\<close> and \<^verbatim>\<open>error.status\<close>; the names and status codes
  are those of the spec's error table. The table gives ``502/503'' for \<^verbatim>\<open>NoResponse\<close>, so
  that status is an argument.
\<close>

datatype ErrorRes = ErrorRes (name: string) (error_message: string) (status: nat)

text \<open>
  Modelled from the spec: the six subclasses of \<^verbatim>\<open>ErrorRes\<close> in \<^verbatim>\<open>./errors\<close>, each
  constructed from a message, with the kind name and the status of the spec's error table
  (section 7).
\<close>

definition MalformedRequest :: "string \<Rightarrow> ErrorRes" where
  "MalformedRequest m = ErrorRes ''MalformedRequest'' m 400"

definition Unauthorized :: "string \<Rightarrow> ErrorRes" where
  "Unauthorized m = ErrorRes ''Unauthorized'' m 401"

definition NotFound :: "string \<Rightarrow> ErrorRes" where
  "NotFound m = ErrorRes ''NotFound'' m 404"

definition NoResponse :: "nat \<Rightarrow> string \<Rightarrow> ErrorRes" where
  "NoResponse st m = ErrorRes ''NoResponse'' m st"

definition MalformedResponse :: "string \<Rightarrow> ErrorRes" where
  "MalformedResponse m = ErrorRes ''MalformedResponse'' m 502"

definition InternalDatabase :: "string \<Rightarrow> ErrorRes" where
  "InternalDatabase m = ErrorRes ''InternalDatabase'' m 500"

text \<open>A \<^verbatim>\<open>Response\<close>: its status, its body (\<open>None\<close> for \<^verbatim>\<open>null\<close>) and the headers the
  source sets, in order.\<close>

record Response =
  resp_status :: nat
  resp_body :: "string option"
  resp_headers :: "(string \<times> string) list"

text \<open>\<^verbatim>\<open>headers.set(k, v)\<close> replaces the value of a header that is present and appends
  one that is not.\<close>

definition headers_set :: "string \<Rightarrow> string \<Rightarrow> Response \<Rightarrow> Response" where
  "headers_set k v r = r\<lparr>resp_headers := AList.update k v (resp_headers r)\<rparr>"

text \<open>
  The success value of a route is typed \<^verbatim>\<open>Response\<close>, but \<^verbatim>\<open>queryDB\<close> returns
  \<^verbatim>\<open>ResultAsync<any, ErrorRes>\<close>, so the type checker lets the result object of the
  storage engine through where a \<^verbatim>\<open>Response\<close> is expected. Both cases are values.
\<close>

datatype outcome = IsResponse Response | NotResponse js

section \<open>The world of one request\<close>

text \<open>
  The collaborators are parameters. A rejected promise carries the text the source makes
  of the thrown value (\<^verbatim>\<open>JSON.stringify(e)\<close> or \<^verbatim>\<open>${e}\<close>).
  \<^item> \<open>GOOGLE_CLIENT_ID\<close>: \<^verbatim>\<open>env.GOOGLE_CLIENT_ID\<close>;
  \<^item> \<open>DB_all\<close>: \<^verbatim>\<open>env.DB.prepare(query).bind(...binds).all()\<close> on a store, giving the
    rejection or the result object, and the store afterwards;
  \<^item> \<open>tokeninfo\<close>: \<^verbatim>\<open>fetch(url)\<close>, giving the rejection or the response, of which only
    the outcome of \<^verbatim>\<open>res.json()\<close> is read (the rejection or the parsed body);
  \<^item> \<open>now\<close>: \<^verbatim>\<open>Date.now()\<close>, in milliseconds;
  \<^item> \<open>zodlib\<close>: the parameters of the schema library;
  \<^item> \<open>JSON_stringify\<close>: \<^verbatim>\<open>JSON.stringify\<close> on a value;
  \<^item> \<open>NoResponse_status\<close>: the status of the \<^verbatim>\<open>NoResponse\<close> error.
\<close>

record 'db world =
  GOOGLE_CLIENT_ID :: string
  DB_all :: "'db \<Rightarrow> string \<Rightarrow> js list \<Rightarrow> (string + js) \<times> 'db"
  tokeninfo :: "string \<Rightarrow> string + (string + js)"
  now :: real
  zodlib :: zod
  JSON_stringify :: "js \<Rightarrow> string"
  NoResponse_status :: nat

text \<open>
  A request as the handler reads it: \<^verbatim>\<open>request.method\<close> (field \<open>http_method\<close>), the outcome of
  \<^verbatim>\<open>new URL(request.url)\<close> (\<open>Inl\<close> the text of the thrown error, \<open>Inr\<close> the
  \<^verbatim>\<open>pathname\<close>), \<^verbatim>\<open>request.headers.get("Authorization")\<close> and the outcome of
  \<^verbatim>\<open>request.json()\<close> (\<open>Inl\<close> the rejection, \<open>Inr\<close> the parsed body).
\<close>

record request =
  http_method :: string
  url :: "string + string"
  Authorization :: "string option"
  json :: "string + js"

text \<open>What one request does to the outside, in order, and the store it leaves.\<close>

datatype event =
    Fetch string
  | ResponseJson
  | RequestJson
  | SafeParse zschema js
  | Statement string "js list"

record 'db state =
  store :: 'db
  trace :: "event list"

definition emit :: "event \<Rightarrow> 'db state \<Rightarrow> 'db state" where
  "emit ev s = s\<lparr>trace := trace s @ [ev]\<rparr>"

section \<open>Fallible composition\<close>

text \<open>\<^verbatim>\<open>ResultAsync<T, ErrorRes>\<close> of \<^verbatim>\<open>neverthrow\<close>: a computation on the state that ends
  in \<^verbatim>\<open>Err\<close> (\<open>Inl\<close>) or \<^verbatim>\<open>Ok\<close> (\<open>Inr\<close>).\<close>

type_synonym ('db, 'a) ResultAsync = "'db state \<Rightarrow> (ErrorRes + 'a) \<times> 'db state"

definition okAsync :: "'a \<Rightarrow> ('db, 'a) ResultAsync" where
  "okAsync v = (\<lambda>s. (Inr v, s))"

definition errAsync :: "ErrorRes \<Rightarrow> ('db, 'a) ResultAsync" where
  "errAsync e = (\<lambda>s. (Inl e, s))"

definition andThen :: "('db, 'a) ResultAsync \<Rightarrow> ('a \<Rightarrow> ('db, 'b) ResultAsync) \<Rightarrow> ('db, 'b) ResultAsync" where
  "andThen m f = (\<lambda>s. case m s of (Inl e, s') \<Rightarrow> (Inl e, s') | (Inr v, s') \<Rightarrow> f v s')"

definition mapOk :: "('db, 'a) ResultAsync \<Rightarrow> ('a \<Rightarrow> 'b) \<Rightarrow> ('db, 'b) ResultAsync" where
  "mapOk m f = (\<lambda>s. case m s of (Inl e, s') \<Rightarrow> (Inl e, s') | (Inr v, s') \<Rightarrow> (Inr (f v), s'))"

section \<open>The source: schemas\<close>

definition googleTokenSchema :: zschema where
  "googleTokenSchema = ZObject
     [(''iss'', ZString []),
      (''aud'', ZString []),
      (''sub'', ZString []),
      (''email'', ZOptional (ZString [StrEmail])),
      (''email_verified'', ZOptional (ZEnum [''true'', ''false''])),
      (''name'', ZOptional (ZString [])),
      (''picture'', ZOptional (ZString [StrUrl])),
      (''iat'', ZNumber True []),
      (''exp'', ZNumber True [])]"

definition allowedEvents :: "string list" where
  "allowedEvents =
     [''50_free'', ''50_back'', ''50_breast'', ''50_fly'', ''100_free'', ''100_back'',
      ''100_breast'', ''100_fly'', ''200_free'', ''200_im'', ''500_free'']"

definition meetSchema :: zschema where
  "meetSchema = ZObject
     [(''name'', ZString [StrMin 1 (Some ''Name is required'')]),
      (''location'', ZString [StrMin 1 (Some ''Location is required'')]),
      (''date'', ZNumber False [NumInt (Some ''Date must be an integer'')])]"

definition recordSchema :: zschema where
  "recordSchema = ZArray (ZObject
     [(''meet_id'', ZNumber False [NumInt None]),
      (''swimmer_id'', ZNumber False [NumInt None]),
      (''event'', ZEnum allowedEvents),
      (''type'', ZEnum [''individual'', ''relay'']),
      (''start'', ZEnum [''flat'', ''relay'']),
      (''time'', ZNumber False [NumPositive])])"

definition swimmerSchema :: zschema where
  "swimmerSchema = ZObject
     [(''name'', ZString [StrMin 1 (Some ''Name is required'')]),
      (''graduating_year'', ZNumber False [NumInt None])]"

definition relaySchema :: zschema where
  "relaySchema = ZObject
     [(''time'', ZNumber False [NumPositive]),
      (''relay_type'', ZEnum [''200_mr'', ''200_fr'', ''400_fr'']),
      (''record_1_id'', ZNumber False [NumInt None]),
      (''record_2_id'', ZNumber False [NumInt None]),
      (''record_3_id'', ZNumber False [NumInt None]),
      (''record_4_id'', ZNumber False [NumInt None])]"

section \<open>The source: helpers\<close>

fun path_elem_text :: "path_elem \<Rightarrow> string" where
  "path_elem_text (Key k) = k"
| "path_elem_text (Idx i) = string_of_nat i"

definition issue_text :: "ZodIssue \<Rightarrow> string" where
  "issue_text i = join ''.'' (map path_elem_text (path i)) @ '': '' @ message i"

definition zodErrorToHumanReadable :: "ZodIssue list \<Rightarrow> string" where
  "zodErrorToHumanReadable issues = join ''; '' (map issue_text issues)"

definition zodParseWith ::
  "'db world \<Rightarrow> zschema \<Rightarrow> (string \<Rightarrow> ErrorRes) \<Rightarrow> js \<Rightarrow> ('db, js) ResultAsync" where
  "zodParseWith w schema errFunc json0 =
     (\<lambda>s. case safeParse (zodlib w) schema json0 of
             Inl issues \<Rightarrow> (Inl (errFunc (zodErrorToHumanReadable issues)), emit (SafeParse schema json0) s)
           | Inr d \<Rightarrow> (Inr d, emit (SafeParse schema json0) s))"

definition queryDB ::
  "'db world \<Rightarrow> string \<Rightarrow> (string \<Rightarrow> ErrorRes) \<Rightarrow> js list \<Rightarrow> ('db, js) ResultAsync" where
  "queryDB w query errFunc binds =
     (\<lambda>s. case DB_all w (store s) query binds of
             (Inl e, st) \<Rightarrow> (Inl (errFunc e), emit (Statement query binds) (s\<lparr>store := st\<rparr>))
           | (Inr res, st) \<Rightarrow> (Inr res, emit (Statement query binds) (s\<lparr>store := st\<rparr>)))"

text \<open>The default value of the parameter \<^verbatim>\<open>errFunc\<close> of \<^verbatim>\<open>queryDB\<close>; the default of
  \<^verbatim>\<open>binds\<close> is the empty list.\<close>

definition queryDB_errFunc :: "string \<Rightarrow> ErrorRes" where
  "queryDB_errFunc e = InternalDatabase (''Failed to query database: '' @ e)"

definition returnJSONResponse :: "'db world \<Rightarrow> js \<Rightarrow> nat \<Rightarrow> Response" where
  "returnJSONResponse w data st =
     \<lparr>resp_status = st, resp_body = Some (JSON_stringify w data),
      resp_headers = [(''Content-Type'', ''application/json'')]\<rparr>"

definition getRequestJSON :: "request \<Rightarrow> (string \<Rightarrow> ErrorRes) \<Rightarrow> ('db, js) ResultAsync" where
  "getRequestJSON req errFunc =
     (\<lambda>s. case json req of
             Inl e \<Rightarrow> (Inl (errFunc e), emit RequestJson s)
           | Inr j \<Rightarrow> (Inr j, emit RequestJson s))"

text \<open>The default value of the parameter \<^verbatim>\<open>requestJSONFailErrFunc\<close>.\<close>

definition requestJSONFailErrFunc :: "string \<Rightarrow> ErrorRes" where
  "requestJSONFailErrFunc e = MalformedRequest (''Failed to parse request JSON: '' @ e)"

definition getAndParseRequestJSON ::
  "'db world \<Rightarrow> request \<Rightarrow> zschema \<Rightarrow> (string \<Rightarrow> ErrorRes) \<Rightarrow> (string \<Rightarrow> ErrorRes) \<Rightarrow> ('db, js) ResultAsync" where
  "getAndParseRequestJSON w req schema zodParseFailErrFunc requestJSONFailErrFunc0 =
     andThen (getRequestJSON req requestJSONFailErrFunc0) (zodParseWith w schema zodParseFailErrFunc)"

section \<open>The source: authentication\<close>

text \<open>\<^verbatim>\<open>String.prototype.split\<close> with a separator of one character.\<close>

fun split :: "char \<Rightarrow> string \<Rightarrow> string list" where
  "split c [] = [[]]"
| "split c (x # xs) =
     (if x = c then [] # split c xs
      else (case split c xs of w # ws \<Rightarrow> (x # w) # ws | [] \<Rightarrow> [[x]]))"

text \<open>\<^verbatim>\<open>authHeader.split(" ")[1]\<close> inside the template literal: an index out of range is
  \<^verbatim>\<open>undefined\<close>, which the template renders as text.\<close>

definition token_of :: "string \<Rightarrow> string" where
  "token_of authHeader =
     (case split CHR '' '' authHeader of _ # t # _ \<Rightarrow> t | _ \<Rightarrow> ''undefined'')"

definition allowedEmails :: "string list" where
  "allowedEmails = [''ryanyun2010@gmail.com'']"

text \<open>\<^verbatim>\<open>ResultAsync.fromPromise(fetch(url), ...)\<close> and \<^verbatim>\<open>ResultAsync.fromPromise(res.json(), ...)\<close>.\<close>

definition fetch_tokeninfo :: "'db world \<Rightarrow> string \<Rightarrow> ('db, string + js) ResultAsync" where
  "fetch_tokeninfo w u =
     (\<lambda>s. case tokeninfo w u of
             Inl e \<Rightarrow>
               (Inl (NoResponse (NoResponse_status w)
                       (''Failed to fetch Authentication Token info from Google: '' @ e)),
                emit (Fetch u) s)
           | Inr res \<Rightarrow> (Inr res, emit (Fetch u) s))"

definition res_json :: "string + js \<Rightarrow> ('db, js) ResultAsync" where
  "res_json res =
     (\<lambda>s. case res of
             Inl e \<Rightarrow>
               (Inl (MalformedResponse
                       (''Failed to parse Authentication Token info JSON recieved from Google: '' @ e)),
                emit ResponseJson s)
           | Inr j \<Rightarrow> (Inr j, emit ResponseJson s))"

text \<open>
  The business checks of \<^verbatim>\<open>verifyAuth\<close> (the last \<^verbatim>\<open>andThen\<close>). The payload is the data
  of \<^verbatim>\<open>googleTokenSchema\<close>, where \<^verbatim>\<open>aud\<close> is a string, so that the loose \<^verbatim>\<open>!=\<close> of the
  source compares two strings, and \<^verbatim>\<open>exp\<close> is a number (lemma \<open>validated_exp_is_number\<close>
  below); on any other value of \<^verbatim>\<open>exp\<close> the comparison of the source is not modelled and
  the check passes. The product \<^verbatim>\<open>payload.exp * 1000\<close> is the product of doubles.
\<close>

definition verifyAuth_checks :: "'db world \<Rightarrow> js \<Rightarrow> ('db, js) ResultAsync" where
  "verifyAuth_checks w payload =
     (if getprop payload ''aud'' \<noteq> Str (GOOGLE_CLIENT_ID w)
        then errAsync (Unauthorized ''Authorization Token gave Incorrect Audience'')
      else if getprop payload ''email_verified'' \<noteq> Str ''true''
        then errAsync (Unauthorized ''Authentication Token gave an Email which could not be verified'')
      else if getprop payload ''email'' = Undefined \<or> getprop payload ''email'' = Null
        then errAsync (Unauthorized ''Authentication Token did not correspond to an Email'')
      else if getprop payload ''iss'' \<noteq> Str ''https://accounts.google.com''
              \<and> getprop payload ''iss'' \<noteq> Str ''accounts.google.com''
        then errAsync (Unauthorized ''Invalid token issuer'')
      else if (case getprop payload ''exp'' of Num e \<Rightarrow> double_times e 1000 < now w | _ \<Rightarrow> False)
        then errAsync (Unauthorized ''Token expired'')
      else if getprop payload ''email'' \<notin> set (map Str allowedEmails)
        then errAsync (Unauthorized ''Email is unauthorized'')
      else okAsync (getprop payload ''email''))"

definition verifyAuth :: "'db world \<Rightarrow> request \<Rightarrow> ('db, js) ResultAsync" where
  "verifyAuth w req =
     (case Authorization req of
        None \<Rightarrow> errAsync (Unauthorized ''No Authorization header'')
      | Some authHeader \<Rightarrow>
          if \<not> prefix ''Bearer '' authHeader
            then errAsync (Unauthorized ''No Authorization header'')
          else
            andThen
              (andThen
                (andThen
                  (fetch_tokeninfo w (''https://oauth2.googleapis.com/tokeninfo?id_token='' @ token_of authHeader))
                  res_json)
                (zodParseWith w googleTokenSchema
                   (\<lambda>errMsg. MalformedResponse (''Recivied invalid Google token payload: '' @ errMsg))))
              (verifyAuth_checks w))"

section \<open>The source: routes\<close>

text \<open>A line of a template literal: the line break, the indentation in tabs, the text.\<close>

definition line :: "nat \<Rightarrow> string \<Rightarrow> string" where
  "line n txt = CHR 0x0A # replicate n (CHR 0x09) @ txt"

definition GET_root_sql :: string where
  "GET_root_sql =
     line 3 ''SELECT'' @ line 3 ''r.id,'' @ line 3 ''r.swimmer_id,'' @ line 3 ''r.event,''
     @ line 3 ''r.type,'' @ line 3 ''r.time,'' @ line 3 ''r.start,''
     @ line 3 ''m.name AS meet_name,'' @ line 3 ''m.location AS meet_location,''
     @ line 3 ''m.date AS meet_date,'' @ line 3 ''s.name AS swimmer_name,''
     @ line 3 ''s.graduating_year AS swimmer_year'' @ line 3 ''FROM records r''
     @ line 3 ''JOIN meets m ON r.meet_id = m.id'' @ line 3 ''JOIN swimmers s ON r.swimmer_id = s.id''
     @ line 3 ''ORDER BY m.date DESC, r.time ASC''"

definition GET_meets_sql :: string where
  "GET_meets_sql =
     line 3 ''SELECT id, name, location, date'' @ line 3 ''FROM meets'' @ line 3 ''ORDER BY date DESC ''"

definition POST_meets_sql :: string where
  "POST_meets_sql = line 3 ''INSERT INTO meets (name, location, date)'' @ line 3 ''VALUES (?, ?, ?)''"

definition GET_records_sql :: string where
  "GET_records_sql =
     line 3 ''SELECT *'' @ replicate 3 (CHR 0x09) @ line 3 ''FROM records'' @ line 3 ''ORDER BY id DESC ''"

definition POST_records_sql :: string where
  "POST_records_sql =
     line 5 ''INSERT INTO records'' @ line 5 ''(meet_id, swimmer_id, event, type, time, start)''
     @ line 5 ''VALUES ''"

definition GET_swimmers_sql :: string where
  "GET_swimmers_sql =
     line 3 ''SELECT id, name, graduating_year'' @ line 3 ''FROM swimmers'' @ line 3 ''ORDER BY id ASC ''"

definition POST_swimmers_sql :: string where
  "POST_swimmers_sql =
     line 4 ''INSERT INTO swimmers'' @ line 4 ''(name, graduating_year)'' @ line 4 ''VALUES (?, ?)''"

definition GET_recent_meets_sql :: string where
  "GET_recent_meets_sql =
     line 4 ''SELECT id, name, location, date'' @ line 4 ''FROM meets'' @ line 4 ''ORDER BY date DESC''
     @ line 4 ''LIMIT 5 ''"

definition POST_relays_sql :: string where
  "POST_relays_sql =
     line 5 ''INSERT INTO relays''
     @ line 5 ''(time, type, record_1_id, record_2_id, record_3_id, record_4_id)''
     @ line 5 ''VALUES (?, ?, ?, ?, ?, ?)''"

text \<open>\<^verbatim>\<open>new Response(body, {status})\<close> and \<^verbatim>\<open>new Response(body, {headers})\<close>, whose status
  is 200.\<close>

definition text_response :: "string \<Rightarrow> nat \<Rightarrow> Response" where
  "text_response b st = \<lparr>resp_status = st, resp_body = Some b, resp_headers = []\<rparr>"

type_synonym 'db route = "'db world \<Rightarrow> request \<Rightarrow> ('db, outcome) ResultAsync"

definition GET_root :: "'db route" where
  "GET_root w req =
     mapOk (queryDB w GET_root_sql queryDB_errFunc [])
       (\<lambda>res. IsResponse (returnJSONResponse w res 200))"

definition GET_meets :: "'db route" where
  "GET_meets w req =
     mapOk (queryDB w GET_meets_sql queryDB_errFunc [])
       (\<lambda>res. IsResponse (returnJSONResponse w res 200))"

text \<open>The chain of \<^verbatim>\<open>POST /meets\<close> ends with \<^verbatim>\<open>queryDB\<close>: its success value is the result
  object of the storage engine, not a \<^verbatim>\<open>Response\<close>.\<close>

definition POST_meets :: "'db route" where
  "POST_meets w req =
     mapOk
       (andThen
         (andThen (verifyAuth w req)
            (\<lambda>_. getAndParseRequestJSON w req meetSchema
                    (\<lambda>errMsg. MalformedRequest (''Given invalid meet data: '' @ errMsg))
                    requestJSONFailErrFunc))
         (\<lambda>json0. queryDB w POST_meets_sql
                    (\<lambda>e. InternalDatabase (''Meet database insertion failed: '' @ e))
                    [getprop json0 ''name'', getprop json0 ''location'', getprop json0 ''date'']))
       NotResponse"

definition GET_records :: "'db route" where
  "GET_records w req =
     mapOk (queryDB w GET_records_sql queryDB_errFunc [])
       (\<lambda>res. IsResponse (returnJSONResponse w res 200))"

text \<open>The elements of the data of an array schema (\<^verbatim>\<open>json.map\<close>, \<^verbatim>\<open>json.flatMap\<close>).\<close>

fun elements :: "js \<Rightarrow> js list" where
  "elements (Arr xs) = xs"
| "elements _ = []"

definition placeholders :: "js \<Rightarrow> string" where
  "placeholders json0 = join '', '' (map (\<lambda>_. ''(?, ?, ?, ?, ?, ?)'') (elements json0))"

definition values_of :: "js \<Rightarrow> js list" where
  "values_of json0 =
     concat (map (\<lambda>record.
        [getprop record ''meet_id'', getprop record ''swimmer_id'', getprop record ''event'',
         getprop record ''type'', getprop record ''time'', getprop record ''start''])
       (elements json0))"

definition POST_records :: "'db route" where
  "POST_records w req =
     andThen
       (andThen (verifyAuth w req)
          (\<lambda>_. getAndParseRequestJSON w req recordSchema
                  (\<lambda>errMsg. MalformedRequest (''Given invalid record data: '' @ errMsg))
                  requestJSONFailErrFunc))
       (\<lambda>json0.
          mapOk (queryDB w (POST_records_sql @ placeholders json0)
                   (\<lambda>e. InternalDatabase (''Records database insertion failed: '' @ e))
                   (values_of json0))
            (\<lambda>_. IsResponse (text_response ''Records sucessfully added'' 201)))"

definition GET_swimmers :: "'db route" where
  "GET_swimmers w req =
     mapOk (queryDB w GET_swimmers_sql queryDB_errFunc [])
       (\<lambda>res. IsResponse (returnJSONResponse w res 200))"

definition POST_swimmers :: "'db route" where
  "POST_swimmers w req =
     andThen
       (andThen (verifyAuth w req)
          (\<lambda>_. getAndParseRequestJSON w req swimmerSchema
                  (\<lambda>errMsg. MalformedRequest (''Given invalid swimmer data: '' @ errMsg))
                  requestJSONFailErrFunc))
       (\<lambda>json0.
          mapOk (queryDB w POST_swimmers_sql
                   (\<lambda>e. InternalDatabase (''Swimmers database insertion failed: '' @ e))
                   [getprop json0 ''name'', getprop json0 ''graduating_year''])
            (\<lambda>_. IsResponse (text_response ''Swimmer added'' 201)))"

definition GET_recent_meets :: "'db route" where
  "GET_recent_meets w req =
     mapOk (queryDB w GET_recent_meets_sql queryDB_errFunc [])
       (\<lambda>res. IsResponse (returnJSONResponse w res 200))"

definition POST_verify :: "'db route" where
  "POST_verify w req =
     mapOk (verifyAuth w req)
       (\<lambda>email. IsResponse
          \<lparr>resp_status = 200,
           resp_body = Some (JSON_stringify w (Obj [(''allowed'', Bool True), (''email'', email)])),
           resp_headers = [(''Content-Type'', ''application/json'')]\<rparr>)"

definition POST_relays :: "'db route" where
  "POST_relays w req =
     andThen
       (andThen (verifyAuth w req)
          (\<lambda>_. getAndParseRequestJSON w req relaySchema
                  (\<lambda>errMsg. MalformedRequest (''Given invalid relay data: '' @ errMsg))
                  requestJSONFailErrFunc))
       (\<lambda>json0.
          mapOk (queryDB w POST_relays_sql
                   (\<lambda>e. InternalDatabase (''Relays database insertion failed: '' @ e))
                   [getprop json0 ''time'', getprop json0 ''relay_type'', getprop json0 ''record_1_id'',
                    getprop json0 ''record_2_id'', getprop json0 ''record_3_id'',
                    getprop json0 ''record_4_id''])
            (\<lambda>_. IsResponse (text_response ''Relay added'' 201)))"

text \<open>The table, in the order of the source. Every key holds a space followed by a
  slash, so no key is a property that a JavaScript object inherits.\<close>

definition routes :: "(string \<times> 'db route) list" where
  "routes =
     [(''GET /'', GET_root),
      (''GET /meets'', GET_meets),
      (''POST /meets'', POST_meets),
      (''GET /records'', GET_records),
      (''POST /records'', POST_records),
      (''GET /swimmers'', GET_swimmers),
      (''POST /swimmers'', POST_swimmers),
      (''GET /recent_meets'', GET_recent_meets),
      (''POST /verify'', POST_verify),
      (''POST /relays'', POST_relays)]"

section \<open>The source: dispatch and boundary\<close>

definition handler :: "'db route" where
  "handler w req =
     (case url req of
        Inl e \<Rightarrow> errAsync (MalformedRequest (''Invalid URL: '' @ e))
      | Inr pathname \<Rightarrow>
          if http_method req = ''OPTIONS''
            then okAsync (IsResponse \<lparr>resp_status = 204, resp_body = None, resp_headers = []\<rparr>)
          else
            (let key = http_method req @ '' '' @ pathname in
             case map_of routes key of
               Some route \<Rightarrow> route w req
             | None \<Rightarrow> errAsync (NotFound (''Endpoint '' @ [CHR 0x22] @ key @ [CHR 0x22] @ '' not found''))))"

text \<open>
  \<^verbatim>\<open>withCors\<close> calls \<^verbatim>\<open>response.headers.set\<close> three times. On a value that is not
  a \<^verbatim>\<open>Response\<close> there is no \<^verbatim>\<open>headers\<close> property, the first call throws a
  \<^verbatim>\<open>TypeError\<close>, nothing catches it, and \<^verbatim>\<open>fetch\<close> returns no response.
\<close>

datatype fetch_result = Returned Response | Threw string

definition withCors :: "outcome \<Rightarrow> fetch_result" where
  "withCors v =
     (case v of
        IsResponse response \<Rightarrow>
          Returned
            (headers_set ''Access-Control-Allow-Headers'' ''Content-Type, Authorization''
              (headers_set ''Access-Control-Allow-Methods'' ''GET, POST, OPTIONS''
                (headers_set ''Access-Control-Allow-Origin'' ''https://nuevaswimming.pages.dev''
                  response)))
      | NotResponse _ \<Rightarrow> Threw ''TypeError'')"

definition fetch :: "'db world \<Rightarrow> request \<Rightarrow> 'db state \<Rightarrow> fetch_result \<times> 'db state" where
  "fetch w req s =
     (case handler w req s of
        (Inr response, s') \<Rightarrow> (withCors response, s')
      | (Inl error, s') \<Rightarrow>
          (withCors (IsResponse (text_response (name error @ '': '' @ error_message error) (status error))), s'))"

section \<open>Notions used by the properties\<close>

text \<open>The events that are statements executed on the storage engine.\<close>

fun is_Statement :: "event \<Rightarrow> bool" where
  "is_Statement (Statement q bs) = True"
| "is_Statement _ = False"

text \<open>
  Following the spec's words (section 4.2, step 6): the business checks a to f in the
  order audience, email verified, email present, issuer, expiry, allow-list, each as the
  condition that must hold and the error when it does not; the first failure wins. The
  conditions and messages are those of the source.
\<close>

definition checks_in_order :: "'db world \<Rightarrow> js \<Rightarrow> (bool \<times> ErrorRes) list" where
  "checks_in_order w payload =
     [(getprop payload ''aud'' = Str (GOOGLE_CLIENT_ID w),
         Unauthorized ''Authorization Token gave Incorrect Audience''),
      (getprop payload ''email_verified'' = Str ''true'',
         Unauthorized ''Authentication Token gave an Email which could not be verified''),
      (getprop payload ''email'' \<noteq> Undefined \<and> getprop payload ''email'' \<noteq> Null,
         Unauthorized ''Authentication Token did not correspond to an Email''),
      (getprop payload ''iss'' = Str ''https://accounts.google.com''
         \<or> getprop payload ''iss'' = Str ''accounts.google.com'',
         Unauthorized ''Invalid token issuer''),
      (\<not> (case getprop payload ''exp'' of Num e \<Rightarrow> double_times e 1000 < now w | _ \<Rightarrow> False),
         Unauthorized ''Token expired''),
      (getprop payload ''email'' \<in> set (map Str allowedEmails),
         Unauthorized ''Email is unauthorized'')]"

fun first_failure :: "(bool \<times> ErrorRes) list \<Rightarrow> ErrorRes option" where
  "first_failure [] = None"
| "first_failure ((holds, e) # cs) = (if holds then first_failure cs else Some e)"

text \<open>The columns of the statement of \<^verbatim>\<open>POST /records\<close>, in the order of its text.\<close>

definition record_columns :: "string list" where
  "record_columns = [''meet_id'', ''swimmer_id'', ''event'', ''type'', ''time'', ''start'']"

text \<open>The text of \<open>n\<close> value groups of six placeholders, separated by commas.\<close>

definition value_groups :: "nat \<Rightarrow> string" where
  "value_groups n = join '', '' (replicate n ''(?, ?, ?, ?, ?, ?)'')"

section \<open>Sample inputs\<close>

text \<open>
  A sample instance of the parameters: a store that is the list of the statements
  executed so far, an engine that accepts every statement, an identity provider that
  answers every token with the claims of the administrator, and a clock before the
  expiry of those claims.
\<close>

definition sample_zod :: zod where
  "sample_zod =
     \<lparr>defaultMessage = (\<lambda>v. ''Invalid input''),
      isEmail = (\<lambda>s. CHR ''@'' \<in> set s),
      isUrl = (\<lambda>s. prefix ''https://'' s),
      toNumber = (\<lambda>v. case v of Num r \<Rightarrow> Some r | _ \<Rightarrow> None)\<rparr>"

definition sample_claims :: js where
  "sample_claims = Obj
     [(''iss'', Str ''accounts.google.com''),
      (''aud'', Str ''client-1''),
      (''sub'', Str ''42''),
      (''email'', Str ''ryanyun2010@gmail.com''),
      (''email_verified'', Str ''true''),
      (''iat'', Num 1700000000),
      (''exp'', Num 1700003600)]"

definition sample_world :: "(string \<times> js list) list world" where
  "sample_world =
     \<lparr>GOOGLE_CLIENT_ID = ''client-1'',
      DB_all = (\<lambda>st q bs. (Inr (Obj [(''success'', Bool True)]), st @ [(q, bs)])),
      tokeninfo = (\<lambda>u. Inr (Inr sample_claims)),
      now = 1700000000000,
      zodlib = sample_zod,
      JSON_stringify = (\<lambda>v. ''{}''),
      NoResponse_status = 502\<rparr>"

definition sample_state :: "(string \<times> js list) list state" where
  "sample_state = \<lparr>store = [], trace = []\<rparr>"

definition sample_meet :: js where
  "sample_meet = Obj [(''name'', Str ''Winter Invite''), (''location'', Str ''Pool''), (''date'', Num 20240101)]"

definition sample_record :: "real \<Rightarrow> js" where
  "sample_record t = Obj
     [(''meet_id'', Num 1), (''swimmer_id'', Num 1), (''event'', Str ''50_free''),
      (''type'', Str ''individual''), (''start'', Str ''flat''), (''time'', Num t)]"

definition sample_request :: "string \<Rightarrow> string \<Rightarrow> js \<Rightarrow> request" where
  "sample_request m p body =
     \<lparr>http_method = m, url = Inr p, Authorization = Some ''Bearer abc'', json = Inr body\<rparr>"

text \<open>The sample world with an engine that rejects every statement, and the sample
  world at another time of the clock.\<close>

definition rejecting_world :: "(string \<times> js list) list world" where
  "rejecting_world = sample_world\<lparr>DB_all := (\<lambda>st q bs. (Inl ''{}'', st))\<rparr>"

definition sample_world_at :: "real \<Rightarrow> (string \<times> js list) list world" where
  "sample_world_at t = sample_world\<lparr>now := t\<rparr>"

text \<open>Claims with another audience and an email that is not verified, and the sample
  world whose identity provider answers with them.\<close>

definition unverified_claims :: js where
  "unverified_claims = Obj
     [(''iss'', Str ''accounts.google.com''),
      (''aud'', Str ''client-2''),
      (''sub'', Str ''42''),
      (''email'', Str ''ryanyun2010@gmail.com''),
      (''email_verified'', Str ''false''),
      (''iat'', Num 1700000000),
      (''exp'', Num 1700003600)]"

text \<open>The claims of the administrator with an expiry that is not a whole number of
  milliseconds.\<close>

definition fractional_claims :: js where
  "fractional_claims = Obj
     [(''iss'', Str ''accounts.google.com''),
      (''aud'', Str ''client-1''),
      (''sub'', Str ''42''),
      (''email'', Str ''ryanyun2010@gmail.com''),
      (''email_verified'', Str ''true''),
      (''iat'', Num 1700000000),
      (''exp'', Num (17000036000009999 / 10000000))]"

definition unverified_world :: "(string \<times> js list) list world" where
  "unverified_world = sample_world\<lparr>tokeninfo := (\<lambda>u. Inr (Inr unverified_claims))\<rparr>"

section \<open>Double arithmetic\<close>

lemma round_ties_even_of_int: "round_ties_even (of_int m) = m"
  by (simp add: round_ties_even_def)

lemma floor_log2_eq:
  assumes "2 ^ n \<le> x" and "x < 2 ^ Suc n"
  shows "\<lfloor>log 2 x\<rfloor> = int n"
proof -
  have pos: "0 < x" using assms(1) by (smt (verit) zero_less_power)
  have "real n \<le> log 2 x"
    using assms(1) pos by (simp add: le_log_iff powr_realpow)
  moreover have "log 2 x < real n + 1"
    using assms(2) pos by (simp add: log_less_iff powr_add powr_realpow)
  ultimately show ?thesis by (simp add: floor_eq_iff)
qed

lemma to_double_between:
  assumes "2 ^ n \<le> \<bar>x\<bar>" and "\<bar>x\<bar> < 2 ^ Suc n"
  shows "to_double x = of_int (round_ties_even (x * 2 powi (52 - int n))) * 2 powi (int n - 52)"
proof -
  have nz: "x \<noteq> 0" using assms(1) by (smt (verit) zero_less_power)
  have e: "\<lfloor>log 2 \<bar>x\<bar>\<rfloor> = int n" by (rule floor_log2_eq [OF assms])
  have "x / 2 powi (int n - 52) = x * 2 powi (52 - int n)"
    by (simp add: power_int_diff field_simps)
  then show ?thesis using nz e by (simp add: to_double_def Let_def)
qed

lemma to_double_of_int:
  assumes "\<bar>m\<bar> < 2 ^ 53"
  shows "to_double (of_int m) = of_int m"
proof (cases "m = 0")
  case True
  then show ?thesis by (simp add: to_double_def)
next
  case False
  define x :: real where "x = \<bar>of_int m\<bar>"
  have x1: "1 \<le> x" using False by (simp add: x_def)
  have x2: "x < 2 ^ 53" using assms unfolding x_def
    by (metis of_int_abs of_int_less_numeral_power_cancel_iff)
  define e where "e = \<lfloor>log 2 x\<rfloor>"
  have e0: "0 \<le> e" using x1 by (simp add: e_def)
  have "log 2 x < 53"
    using x1 x2 by (simp add: log_less_iff powr_realpow [of 2 53, simplified])
  then have e52: "e \<le> 52" by (simp add: e_def floor_le_iff)
  define k where "k = nat (52 - e)"
  have ulp: "(2::real) powi (e - 52) = inverse (2 ^ k)"
    using e52 by (simp add: k_def power_int_def power_divide inverse_eq_divide)
  have "of_int m / ((2::real) powi (e - 52)) = of_int (m * 2 ^ k)"
    by (simp add: ulp field_simps)
  then have r: "round_ties_even (of_int m / (2 powi (e - 52))) = m * 2 ^ k"
    by (simp only: round_ties_even_of_int)
  have "to_double (of_int m) = of_int (m * 2 ^ k) * inverse (2 ^ k)"
    using False e0 r by (simp add: to_double_def Let_def e_def [symmetric] x_def [symmetric] ulp max_def)
  then show ?thesis by simp
qed

lemma double_times_exact:
  assumes "a * b = of_int m" and "\<bar>m\<bar> < 2 ^ 53"
  shows "double_times a b = a * b"
  unfolding double_times_def assms(1) by (rule to_double_of_int [OF assms(2)])

lemma double_times_sample: "double_times 1700003600 1000 = 1700003600000"
  using double_times_exact [of 1700003600 1000 1700003600000] by simp

lemma double_times_rounds_up:
  "double_times (17000036000009999 / 10000000) 1000 = 1700003600001"
proof -
  let ?x = "17000036000009999 / 10000000 * 1000 :: real"
  have b: "2 ^ 40 \<le> \<bar>?x\<bar>" "\<bar>?x\<bar> < 2 ^ Suc 40" by simp_all
  have f: "\<lfloor>?x * 2 powi (52 - int 40)\<rfloor> = 6963214745604095"
    by (simp add: floor_eq_iff)
  have "round_ties_even (?x * 2 powi (52 - int 40)) = 6963214745604096"
    unfolding round_ties_even_def f Let_def by simp
  then show ?thesis
    unfolding double_times_def to_double_between [OF b] by simp
qed

section \<open>Dispatch and the boundary\<close>

lemmas chain_defs = okAsync_def errAsync_def andThen_def mapOk_def

lemma routes_keys:
  "map fst (routes :: (string \<times> 'db route) list) =
     [''GET /'', ''GET /meets'', ''POST /meets'', ''GET /records'', ''POST /records'',
      ''GET /swimmers'', ''POST /swimmers'', ''GET /recent_meets'', ''POST /verify'', ''POST /relays'']"
  by (simp add: routes_def)

lemma routes_lookup:
  "map_of routes ''POST /meets'' = Some POST_meets"
  "map_of routes ''POST /records'' = Some POST_records"
  "map_of routes ''POST /swimmers'' = Some POST_swimmers"
  "map_of routes ''POST /relays'' = Some POST_relays"
  "map_of routes ''POST /verify'' = Some POST_verify"
  by (simp_all add: routes_def)

lemma routes_miss:
  assumes "key \<notin> set [''GET /'', ''GET /meets'', ''POST /meets'', ''GET /records'', ''POST /records'',
      ''GET /swimmers'', ''POST /swimmers'', ''GET /recent_meets'', ''POST /verify'', ''POST /relays'']"
  shows "map_of (routes :: (string \<times> 'db route) list) key = None"
proof -
  have "key \<notin> set (map fst (routes :: (string \<times> 'db route) list))"
    using assms unfolding routes_keys .
  then show ?thesis by (simp add: map_of_eq_None_iff)
qed

lemma withCors_headers:
  "withCors (IsResponse r) = Returned r' \<Longrightarrow>
     map_of (resp_headers r') ''Access-Control-Allow-Origin'' = Some ''https://nuevaswimming.pages.dev''
   \<and> map_of (resp_headers r') ''Access-Control-Allow-Methods'' = Some ''GET, POST, OPTIONS''
   \<and> map_of (resp_headers r') ''Access-Control-Allow-Headers'' = Some ''Content-Type, Authorization''
   \<and> resp_status r' = resp_status r \<and> resp_body r' = resp_body r"
  by (auto simp: withCors_def headers_set_def update_conv')

lemma fetch_error:
  "handler w req s = (Inl e, s') \<Longrightarrow>
     \<exists>r. fetch w req s = (Returned r, s') \<and> resp_status r = status e
       \<and> resp_body r = Some (name e @ '': '' @ error_message e)"
  by (simp add: fetch_def withCors_def headers_set_def text_response_def)

text \<open>
  Claim C7. When the URL of the request parses: an \<^verbatim>\<open>OPTIONS\<close> request, on any path, is
  answered with an empty 204 and the state (store and trace) is untouched, so neither
  authentication nor validation nor storage ran; any other request is dispatched on the
  exact key \<^verbatim>\<open>METHOD /path\<close>, and a key that is not one of the ten of the table gives
  \<^verbatim>\<open>NotFound\<close>, rendered with status 404, again without touching the state.
\<close>

theorem handler_dispatch:
  assumes "url req = Inr pathname"
  shows "(http_method req = ''OPTIONS'' \<longrightarrow>
            handler w req s = (Inr (IsResponse \<lparr>resp_status = 204, resp_body = None, resp_headers = []\<rparr>), s)
          \<and> (\<exists>r. fetch w req s = (Returned r, s) \<and> resp_status r = 204 \<and> resp_body r = None))
       \<and> (http_method req \<noteq> ''OPTIONS'' \<longrightarrow>
            handler w req s =
              (case map_of routes (http_method req @ '' '' @ pathname) of
                 Some route \<Rightarrow> route w req s
               | None \<Rightarrow> (Inl (NotFound (''Endpoint '' @ [CHR 0x22] @ http_method req @ '' '' @ pathname @ [CHR 0x22] @ '' not found'')), s)))
       \<and> (http_method req \<noteq> ''OPTIONS'' \<and> http_method req @ '' '' @ pathname \<notin> set [''GET /'', ''GET /meets'', ''POST /meets'', ''GET /records'',
              ''POST /records'', ''GET /swimmers'', ''POST /swimmers'', ''GET /recent_meets'', ''POST /verify'',
              ''POST /relays''] \<longrightarrow>
            handler w req s = (Inl (NotFound (''Endpoint '' @ [CHR 0x22] @ http_method req @ '' '' @ pathname @ [CHR 0x22] @ '' not found'')), s)
          \<and> (\<exists>r. fetch w req s = (Returned r, s) \<and> resp_status r = 404))"
proof (intro conjI impI)
  assume m: "http_method req = ''OPTIONS''"
  show h: "handler w req s = (Inr (IsResponse \<lparr>resp_status = 204, resp_body = None, resp_headers = []\<rparr>), s)"
    using assms m by (simp add: handler_def okAsync_def)
  show "\<exists>r. fetch w req s = (Returned r, s) \<and> resp_status r = 204 \<and> resp_body r = None"
    by (simp add: fetch_def h withCors_def headers_set_def)
next
  assume m: "http_method req \<noteq> ''OPTIONS''"
  show "handler w req s =
     (case map_of routes (http_method req @ '' '' @ pathname) of
        Some route \<Rightarrow> route w req s
      | None \<Rightarrow> (Inl (NotFound (''Endpoint '' @ [CHR 0x22] @ http_method req @ '' '' @ pathname @ [CHR 0x22] @ '' not found'')), s))"
    using assms m by (simp add: handler_def errAsync_def Let_def split: option.split)
next
  assume a: "http_method req \<noteq> ''OPTIONS'' \<and> http_method req @ '' '' @ pathname \<notin> set [''GET /'', ''GET /meets'', ''POST /meets'', ''GET /records'',
        ''POST /records'', ''GET /swimmers'', ''POST /swimmers'', ''GET /recent_meets'', ''POST /verify'',
        ''POST /relays'']"
  have none: "map_of (routes :: (string \<times> 'a route) list) (http_method req @ '' '' @ pathname) = None"
    using a by (intro routes_miss) simp
  show h: "handler w req s = (Inl (NotFound (''Endpoint '' @ [CHR 0x22] @ http_method req @ '' '' @ pathname @ [CHR 0x22] @ '' not found'')), s)"
    using assms a none by (simp add: handler_def errAsync_def Let_def)
  show "\<exists>r. fetch w req s = (Returned r, s) \<and> resp_status r = 404"
    using fetch_error [OF h] by (auto simp: NotFound_def)
qed

theorem handler_dispatch_witness:
  "handler sample_world (sample_request ''OPTIONS'' ''/anything'' Null) sample_state
     = (Inr (IsResponse \<lparr>resp_status = 204, resp_body = None, resp_headers = []\<rparr>), sample_state)
   \<and> handler sample_world (sample_request ''GET'' ''/meets/'' Null) sample_state
     = (Inl (NotFound (''Endpoint '' @ [CHR 0x22] @ ''GET /meets/'' @ [CHR 0x22] @ '' not found'')), sample_state)"
proof -
  have a: "handler sample_world (sample_request ''OPTIONS'' ''/anything'' Null) sample_state
     = (Inr (IsResponse \<lparr>resp_status = 204, resp_body = None, resp_headers = []\<rparr>), sample_state)"
    using handler_dispatch [of "sample_request ''OPTIONS'' ''/anything'' Null" "''/anything''" sample_world sample_state,
        THEN conjunct1]
    by (simp add: sample_request_def)
  have b: "handler sample_world (sample_request ''GET'' ''/meets/'' Null) sample_state
     = (Inl (NotFound (''Endpoint '' @ [CHR 0x22] @ ''GET /meets/'' @ [CHR 0x22] @ '' not found'')), sample_state)"
    using handler_dispatch [of "sample_request ''GET'' ''/meets/'' Null" "''/meets/''" sample_world sample_state,
        THEN conjunct2, THEN conjunct2]
    by (simp add: sample_request_def)
  show ?thesis using a b by (rule conjI)
qed

text \<open>
  Claim C2. A \<^verbatim>\<open>POST\<close> to one of the five write routes whose \<^verbatim>\<open>Authorization\<close> header is
  absent or does not start with \<^verbatim>\<open>Bearer \<close> ends in
  \<^verbatim>\<open>Unauthorized("No Authorization header")\<close>, rendered with status 401, and leaves the
  trace and the store as they were: no body was read, no schema applied, no statement
  executed.
\<close>

theorem unauthenticated_write_rejected:
  assumes "url req = Inr pathname"
    and "http_method req = ''POST''"
    and "pathname \<in> set [''/meets'', ''/records'', ''/swimmers'', ''/relays'', ''/verify'']"
    and "case Authorization req of None \<Rightarrow> True | Some authHeader \<Rightarrow> \<not> prefix ''Bearer '' authHeader"
  shows "handler w req s = (Inl (Unauthorized ''No Authorization header''), s)
       \<and> (\<exists>r. fetch w req s = (Returned r, s) \<and> resp_status r = 401
              \<and> resp_body r = Some ''Unauthorized: No Authorization header'')
       \<and> trace (snd (handler w req s)) = trace s \<and> store (snd (handler w req s)) = store s"
proof -
  have v: "verifyAuth w req s = (Inl (Unauthorized ''No Authorization header''), s)"
    using assms(4) by (simp add: verifyAuth_def errAsync_def split: option.splits)
  have h: "handler w req s = (Inl (Unauthorized ''No Authorization header''), s)"
    using assms(1,2,3) v
    by (auto simp: handler_def routes_lookup POST_meets_def POST_records_def POST_swimmers_def
        POST_relays_def POST_verify_def chain_defs)
  show ?thesis using fetch_error [OF h] h by (auto simp: Unauthorized_def)
qed

theorem unauthenticated_write_rejected_witness:
  "handler sample_world \<lparr>http_method = ''POST'', url = Inr ''/records'', Authorization = Some ''Basic abc'',
      json = Inr (Arr [sample_record 25])\<rparr> sample_state
     = (Inl (Unauthorized ''No Authorization header''), sample_state)"
  using unauthenticated_write_rejected [of "\<lparr>http_method = ''POST'', url = Inr ''/records'', Authorization = Some ''Basic abc'',
      json = Inr (Arr [sample_record 25])\<rparr>" "''/records''" sample_world sample_state]
  by simp


section \<open>The validator\<close>

lemma sublist_join: "x \<in> set xs \<Longrightarrow> sublist x (join sep xs)"
proof (induction sep xs rule: join.induct)
  case (1 sep)
  then show ?case by simp
next
  case (2 sep x')
  then show ?case by simp
next
  case (3 sep x' y ys)
  show ?case
  proof (cases "x = x'")
    case True
    then show ?thesis by (simp add: sublist_append_rightI)
  next
    case False
    with 3 have "sublist x (join sep (y # ys))" by simp
    then show ?thesis by (simp add: sublist_append)
  qed
qed

lemma issue_text_fun:
  "issue_text = (\<lambda>i. join ''.'' (map path_elem_text (path i)) @ '': '' @ message i)"
  by (rule ext) (simp add: issue_text_def)

lemma parse_object_keeps_child_issues:
  assumes "(k, sch) \<in> set shape" and "i \<in> set (fst (parse z sch (getprop (Obj kvs) k)))"
  shows "under (Key k) i \<in> set (fst (parse z (ZObject shape) (Obj kvs)))"
  using assms by (force simp: image_iff)

lemma parse_array_keeps_child_issues:
  assumes "n < length xs" and "i \<in> set (fst (parse z sch (xs ! n)))"
  shows "under (Idx n) i \<in> set (fst (parse z (ZArray sch) (Arr xs)))"
proof -
  have "(n, xs ! n) \<in> set (enumerate 0 xs)"
    using assms(1) by (simp add: in_set_enumerate_eq)
  then show ?thesis using assms(2) by (force simp: image_iff)
qed

lemma zodParseWith_cases:
  "zodParseWith w schema errFunc v s =
     (case safeParse (zodlib w) schema v of
        Inl issues \<Rightarrow> (Inl (errFunc (zodErrorToHumanReadable issues)), emit (SafeParse schema v) s)
      | Inr d \<Rightarrow> (Inr d, emit (SafeParse schema v) s))"
  by (simp add: zodParseWith_def)

text \<open>
  Claim C5. For every schema and every input the validator returns a value, either the
  data or one error. On failure the message is the list of all issues of the pass, each
  rendered as its path joined with dots, a colon and a space, and its reason, the
  entries joined with \<^verbatim>\<open>"; "\<close>; every issue is an entry of the message; and the pass does
  not stop at the first violation: every issue of every declared key of an object and
  of every element of an array is among the issues of the whole, under its key or index.
\<close>

theorem zodParseWith_reports_every_issue:
  "zodParseWith w schema errFunc v s =
     (case safeParse (zodlib w) schema v of
        Inr d \<Rightarrow> (Inr d, emit (SafeParse schema v) s)
      | Inl issues \<Rightarrow>
          (Inl (errFunc (join ''; ''
             (map (\<lambda>i. join ''.'' (map path_elem_text (path i)) @ '': '' @ message i) issues))),
           emit (SafeParse schema v) s))
   \<and> (\<forall>issues. safeParse (zodlib w) schema v = Inl issues \<longrightarrow>
          issues = fst (parse (zodlib w) schema v) \<and> issues \<noteq> [] \<and>
          (\<forall>i \<in> set issues.
             sublist (join ''.'' (map path_elem_text (path i)) @ '': '' @ message i)
               (zodErrorToHumanReadable issues)))
   \<and> (\<forall>shape kvs k sch. (k, sch) \<in> set shape \<longrightarrow>
          (\<forall>i \<in> set (fst (parse (zodlib w) sch (getprop (Obj kvs) k))).
             under (Key k) i \<in> set (fst (parse (zodlib w) (ZObject shape) (Obj kvs)))))
   \<and> (\<forall>sch xs. \<forall>n < length xs. \<forall>i \<in> set (fst (parse (zodlib w) sch (xs ! n))).
          under (Idx n) i \<in> set (fst (parse (zodlib w) (ZArray sch) (Arr xs))))"
proof (intro conjI allI impI ballI)
  show "zodParseWith w schema errFunc v s =
     (case safeParse (zodlib w) schema v of
        Inr d \<Rightarrow> (Inr d, emit (SafeParse schema v) s)
      | Inl issues \<Rightarrow>
          (Inl (errFunc (join ''; ''
             (map (\<lambda>i. join ''.'' (map path_elem_text (path i)) @ '': '' @ message i) issues))),
           emit (SafeParse schema v) s))"
    by (simp add: zodParseWith_def zodErrorToHumanReadable_def issue_text_fun split: sum.split)
next
  fix issues assume a: "safeParse (zodlib w) schema v = Inl issues"
  then show "issues = fst (parse (zodlib w) schema v)"
    by (auto simp: safeParse_def split: prod.splits if_splits)
  from a show "issues \<noteq> []"
    by (auto simp: safeParse_def split: prod.splits if_splits)
  fix i assume "i \<in> set issues"
  then have "issue_text i \<in> set (map issue_text issues)" by simp
  then have "sublist (issue_text i) (join ''; '' (map issue_text issues))"
    by (rule sublist_join)
  then show "sublist (join ''.'' (map path_elem_text (path i)) @ '': '' @ message i)
               (zodErrorToHumanReadable issues)"
    by (simp add: zodErrorToHumanReadable_def issue_text_def)
next
  fix shape kvs k sch i
  assume "(k, sch) \<in> set shape" "i \<in> set (fst (parse (zodlib w) sch (getprop (Obj kvs) k)))"
  then show "under (Key k) i \<in> set (fst (parse (zodlib w) (ZObject shape) (Obj kvs)))"
    by (rule parse_object_keeps_child_issues)
next
  fix sch xs n i
  assume "n < length xs" "i \<in> set (fst (parse (zodlib w) sch (xs ! n)))"
  then show "under (Idx n) i \<in> set (fst (parse (zodlib w) (ZArray sch) (Arr xs)))"
    by (rule parse_array_keeps_child_issues)
qed



lemma parse_sample_meet_bad:
  "parse sample_zod meetSchema (Obj [(''name'', Str []), (''date'', Num (5 / 2))]) =
     ([ZodIssue [Key ''name''] ''Name is required'', ZodIssue [Key ''location''] ''Invalid input'',
       ZodIssue [Key ''date''] ''Date must be an integer''],
      Obj [(''name'', Str []), (''date'', Num (5 / 2))])"
  by (simp add: meetSchema_def sample_zod_def issue_def)

lemma parse_sample_record_bad:
  "parse sample_zod recordSchema (Arr [sample_record (- 1)]) =
     ([ZodIssue [Idx 0, Key ''time''] ''Invalid input''], Arr [sample_record (- 1)])"
  by (simp add: recordSchema_def sample_zod_def issue_def sample_record_def allowedEvents_def)

theorem zodParseWith_reports_every_issue_witness:
  "zodParseWith sample_world meetSchema MalformedRequest (Obj [(''name'', Str []), (''date'', Num (5 / 2))]) sample_state
     = (Inl (MalformedRequest ''name: Name is required; location: Invalid input; date: Date must be an integer''),
        emit (SafeParse meetSchema (Obj [(''name'', Str []), (''date'', Num (5 / 2))])) sample_state)
   \<and> sublist ''date: Date must be an integer''
        (zodErrorToHumanReadable
           [ZodIssue [Key ''name''] ''Name is required'', ZodIssue [Key ''location''] ''Invalid input'',
            ZodIssue [Key ''date''] ''Date must be an integer''])
   \<and> ZodIssue [Key ''date''] ''Date must be an integer''
        \<in> set (fst (parse sample_zod meetSchema (Obj [(''name'', Str []), (''date'', Num (5 / 2))])))
   \<and> ZodIssue [Idx 0, Key ''time''] ''Invalid input''
        \<in> set (fst (parse sample_zod recordSchema (Arr [sample_record (- 1)])))"
proof -
  let ?v = "Obj [(''name'', Str []), (''date'', Num (5 / 2))]"
  let ?is = "[ZodIssue [Key ''name''] ''Name is required'', ZodIssue [Key ''location''] ''Invalid input'',
            ZodIssue [Key ''date''] ''Date must be an integer'']"
  note inst = zodParseWith_reports_every_issue [of sample_world meetSchema MalformedRequest ?v sample_state]
  have z: "zodlib sample_world = sample_zod" by (simp add: sample_world_def)
  have sp: "safeParse sample_zod meetSchema ?v = Inl ?is"
    by (simp add: safeParse_def parse_sample_meet_bad)
  have a: "zodParseWith sample_world meetSchema MalformedRequest ?v sample_state
     = (Inl (MalformedRequest ''name: Name is required; location: Invalid input; date: Date must be an integer''),
        emit (SafeParse meetSchema ?v) sample_state)"
    using inst [THEN conjunct1] by (simp add: z sp)
  have "\<forall>i \<in> set ?is. sublist (join ''.'' (map path_elem_text (path i)) @ '': '' @ message i)
          (zodErrorToHumanReadable ?is)"
    using inst [THEN conjunct2, THEN conjunct1, unfolded z, rule_format, OF sp] by blast
  then have b: "sublist ''date: Date must be an integer'' (zodErrorToHumanReadable ?is)"
    by simp
  have c: "ZodIssue [Key ''date''] ''Date must be an integer'' \<in> set (fst (parse sample_zod meetSchema ?v))"
    using inst [THEN conjunct2, THEN conjunct2, THEN conjunct1, rule_format,
        of "''date''" "ZNumber False [NumInt (Some ''Date must be an integer'')]"
           "[(''name'', ZString [StrMin 1 (Some ''Name is required'')]),
             (''location'', ZString [StrMin 1 (Some ''Location is required'')]),
             (''date'', ZNumber False [NumInt (Some ''Date must be an integer'')])]"
           "ZodIssue [] ''Date must be an integer''" "[(''name'', Str []), (''date'', Num (5 / 2))]"]
    by (simp add: z meetSchema_def issue_def)
  let ?row = "ZObject
     [(''meet_id'', ZNumber False [NumInt None]),
      (''swimmer_id'', ZNumber False [NumInt None]),
      (''event'', ZEnum allowedEvents),
      (''type'', ZEnum [''individual'', ''relay'']),
      (''start'', ZEnum [''flat'', ''relay'']),
      (''time'', ZNumber False [NumPositive])]"
  have "0 < length [sample_record (- 1)] \<longrightarrow>
          (\<forall>i \<in> set (fst (parse sample_zod ?row ([sample_record (- 1)] ! 0))).
             under (Idx 0) i \<in> set (fst (parse sample_zod (ZArray ?row) (Arr [sample_record (- 1)]))))"
    using inst [THEN conjunct2, THEN conjunct2, THEN conjunct2, unfolded z] by blast
  moreover have "ZodIssue [Key ''time''] ''Invalid input'' \<in> set (fst (parse sample_zod ?row (sample_record (- 1))))"
    by (simp add: sample_zod_def issue_def sample_record_def allowedEvents_def)
  ultimately have d: "ZodIssue [Idx 0, Key ''time''] ''Invalid input''
        \<in> set (fst (parse sample_zod recordSchema (Arr [sample_record (- 1)])))"
    unfolding recordSchema_def by force
  show ?thesis using a b c d by blast
qed


lemma verifyAuth_checks_state: "snd (verifyAuth_checks w payload s) = s"
  by (simp add: verifyAuth_checks_def okAsync_def errAsync_def)

lemma filter_emit:
  "filter is_Statement (trace (emit ev s)) = filter is_Statement (trace s) @ (if is_Statement ev then [ev] else [])"
  by (simp add: emit_def)

lemma store_emit [simp]: "store (emit ev s) = store s"
  by (simp add: emit_def)

lemma verifyAuth_effects:
  assumes "verifyAuth w req s = (r, s1)"
  shows "store s1 = store s \<and> filter is_Statement (trace s1) = filter is_Statement (trace s)"
proof (cases "case Authorization req of None \<Rightarrow> True | Some h \<Rightarrow> \<not> prefix ''Bearer '' h")
  case True
  then have "verifyAuth w req s = (Inl (Unauthorized ''No Authorization header''), s)"
    by (simp add: verifyAuth_def errAsync_def split: option.splits)
  with assms show ?thesis by simp
next
  case False
  then obtain h where h: "Authorization req = Some h" "prefix ''Bearer '' h"
    by (auto split: option.splits)
  let ?u = "''https://oauth2.googleapis.com/tokeninfo?id_token='' @ token_of h"
  have "s1 = snd (verifyAuth w req s)" using assms by simp
  also have "store \<dots> = store s \<and> filter is_Statement (trace \<dots>) = filter is_Statement (trace s)"
    using h verifyAuth_checks_state [of w _ "emit (SafeParse googleTokenSchema _) (emit ResponseJson (emit (Fetch ?u) s))"]
    apply (simp add: verifyAuth_def andThen_def fetch_tokeninfo_def res_json_def zodParseWith_def
        split: sum.splits prod.splits)
    apply (auto simp: filter_emit)
    done
  finally show ?thesis .
qed


section \<open>Write routes\<close>

lemma safeParse_array_data:
  assumes "safeParse z (ZArray sch) body = Inr d"
  shows "\<exists>xs. body = Arr xs \<and> d = Arr (map (\<lambda>x. snd (parse z sch x)) xs)"
  using assms by (cases body) (auto simp: safeParse_def issue_def split: if_splits)

lemma after_auth:
  assumes "verifyAuth w req s = (Inr email, s1)" and "json req = Inr body"
  shows "andThen (andThen (verifyAuth w req)
            (\<lambda>_. getAndParseRequestJSON w req schema ef requestJSONFailErrFunc)) k s =
         (case safeParse (zodlib w) schema body of
            Inl issues \<Rightarrow> (Inl (ef (zodErrorToHumanReadable issues)), emit (SafeParse schema body) (emit RequestJson s1))
          | Inr d \<Rightarrow> k d (emit (SafeParse schema body) (emit RequestJson s1)))"
  using assms
  by (simp add: andThen_def getAndParseRequestJSON_def getRequestJSON_def zodParseWith_def split: sum.splits)

lemma handler_route:
  assumes "url req = Inr pathname" and "http_method req = ''POST''"
    and "map_of routes (''POST '' @ pathname) = Some route"
  shows "handler w req s = route w req s"
  using assms by (simp add: handler_def Let_def)

lemma path_in_message:
  assumes "i \<in> set issues"
  shows "sublist (join ''.'' (map path_elem_text (path i))) (pre @ zodErrorToHumanReadable issues)"
proof -
  have "issue_text i \<in> set (map issue_text issues)" using assms by simp
  then have "sublist (issue_text i) (join ''; '' (map issue_text issues))" by (rule sublist_join)
  moreover have "sublist (join ''.'' (map path_elem_text (path i))) (issue_text i)"
    by (simp add: issue_text_def)
  ultimately have "sublist (join ''.'' (map path_elem_text (path i))) (zodErrorToHumanReadable issues)"
    unfolding zodErrorToHumanReadable_def by (meson sublist_order.order.trans)
  then show ?thesis by (simp add: sublist_append)
qed

lemma invalid_body_route:
  assumes "url req = Inr pathname" and "http_method req = ''POST''"
    and "map_of routes (''POST '' @ pathname) = Some route"
    and "route w req = andThen (andThen (verifyAuth w req)
            (\<lambda>_. getAndParseRequestJSON w req schema (\<lambda>errMsg. MalformedRequest (pre @ errMsg)) requestJSONFailErrFunc)) k"
    and "verifyAuth w req s = (Inr email, s1)"
    and "json req = Inr body"
    and "safeParse (zodlib w) schema body = Inl issues"
  shows "handler w req s =
           (Inl (MalformedRequest (pre @ zodErrorToHumanReadable issues)),
            emit (SafeParse schema body) (emit RequestJson s1))"
  unfolding handler_route [OF assms(1,2,3)] assms(4) after_auth [OF assms(5,6)] assms(7)
  by simp

lemma POST_meets_chain:
  "POST_meets w req = andThen (andThen (verifyAuth w req)
            (\<lambda>_. getAndParseRequestJSON w req meetSchema (\<lambda>errMsg. MalformedRequest (''Given invalid meet data: '' @ errMsg)) requestJSONFailErrFunc))
          (\<lambda>json0 s. case queryDB w POST_meets_sql
                    (\<lambda>e. InternalDatabase (''Meet database insertion failed: '' @ e))
                    [getprop json0 ''name'', getprop json0 ''location'', getprop json0 ''date''] s of
                   (Inl e, s') \<Rightarrow> (Inl e, s') | (Inr v, s') \<Rightarrow> (Inr (NotResponse v), s'))"
  by (rule ext) (simp add: POST_meets_def mapOk_def andThen_def split: prod.splits sum.splits)

text \<open>
  Claim C8. On each of the four write routes that take a body (\<^verbatim>\<open>/meets\<close>, \<^verbatim>\<open>/records\<close>,
  \<^verbatim>\<open>/swimmers\<close>, \<^verbatim>\<open>/relays\<close>; \<^verbatim>\<open>/verify\<close> reads none), a request that passes
  authentication and whose parsed body fails the schema of the route ends in a
  \<^verbatim>\<open>MalformedRequest\<close>, rendered with status 400, whose message contains the path of every
  violated field; no statement is executed and the store is unchanged.
\<close>

theorem invalid_body_rejected:
  assumes "url req = Inr pathname" and "http_method req = ''POST''"
    and "pathname = ''/meets'' \<and> schema = meetSchema \<and> what = ''meet''
       \<or> pathname = ''/records'' \<and> schema = recordSchema \<and> what = ''record''
       \<or> pathname = ''/swimmers'' \<and> schema = swimmerSchema \<and> what = ''swimmer''
       \<or> pathname = ''/relays'' \<and> schema = relaySchema \<and> what = ''relay''"
    and "verifyAuth w req s = (Inr email, s1)"
    and "json req = Inr body"
    and "safeParse (zodlib w) schema body = Inl issues"
  shows "handler w req s =
           (Inl (MalformedRequest (''Given invalid '' @ what @ '' data: '' @ zodErrorToHumanReadable issues)),
            emit (SafeParse schema body) (emit RequestJson s1))
       \<and> (\<exists>r. fetch w req s = (Returned r, emit (SafeParse schema body) (emit RequestJson s1))
              \<and> resp_status r = 400)
       \<and> (\<forall>i \<in> set issues. sublist (join ''.'' (map path_elem_text (path i)))
              (''Given invalid '' @ what @ '' data: '' @ zodErrorToHumanReadable issues))
       \<and> store (snd (handler w req s)) = store s
       \<and> filter is_Statement (trace (snd (handler w req s))) = filter is_Statement (trace s)"
proof -
  let ?s2 = "emit (SafeParse schema body) (emit RequestJson s1)"
  let ?m = "''Given invalid '' @ what @ '' data: '' @ zodErrorToHumanReadable issues"
  from assms(3) have h: "handler w req s = (Inl (MalformedRequest ?m), ?s2)"
  proof (elim disjE conjE)
    assume c: "pathname = ''/meets''" "schema = meetSchema" "what = ''meet''"
    have "handler w req s = (Inl (MalformedRequest (''Given invalid meet data: '' @ zodErrorToHumanReadable issues)),
            emit (SafeParse meetSchema body) (emit RequestJson s1))"
      by (rule invalid_body_route [where route = POST_meets and schema = meetSchema and pre = "''Given invalid meet data: ''",
            OF assms(1,2) _ POST_meets_chain assms(4,5)])
         (use c assms(6) in \<open>simp_all add: routes_lookup\<close>)
    then show ?thesis unfolding c by simp
  next
    assume c: "pathname = ''/records''" "schema = recordSchema" "what = ''record''"
    have "handler w req s = (Inl (MalformedRequest (''Given invalid record data: '' @ zodErrorToHumanReadable issues)),
            emit (SafeParse recordSchema body) (emit RequestJson s1))"
      by (rule invalid_body_route [where route = POST_records and schema = recordSchema and pre = "''Given invalid record data: ''",
            OF assms(1,2) _ POST_records_def assms(4,5)])
         (use c assms(6) in \<open>simp_all add: routes_lookup\<close>)
    then show ?thesis unfolding c by simp
  next
    assume c: "pathname = ''/swimmers''" "schema = swimmerSchema" "what = ''swimmer''"
    have "handler w req s = (Inl (MalformedRequest (''Given invalid swimmer data: '' @ zodErrorToHumanReadable issues)),
            emit (SafeParse swimmerSchema body) (emit RequestJson s1))"
      by (rule invalid_body_route [where route = POST_swimmers and schema = swimmerSchema and pre = "''Given invalid swimmer data: ''",
            OF assms(1,2) _ POST_swimmers_def assms(4,5)])
         (use c assms(6) in \<open>simp_all add: routes_lookup\<close>)
    then show ?thesis unfolding c by simp
  next
    assume c: "pathname = ''/relays''" "schema = relaySchema" "what = ''relay''"
    have "handler w req s = (Inl (MalformedRequest (''Given invalid relay data: '' @ zodErrorToHumanReadable issues)),
            emit (SafeParse relaySchema body) (emit RequestJson s1))"
      by (rule invalid_body_route [where route = POST_relays and schema = relaySchema and pre = "''Given invalid relay data: ''",
            OF assms(1,2) _ POST_relays_def assms(4,5)])
         (use c assms(6) in \<open>simp_all add: routes_lookup\<close>)
    then show ?thesis unfolding c by simp
  qed
  have f: "\<exists>r. fetch w req s = (Returned r, ?s2) \<and> resp_status r = 400"
    using fetch_error [OF h] by (auto simp: MalformedRequest_def)
  have p: "\<forall>i \<in> set issues. sublist (join ''.'' (map path_elem_text (path i))) ?m"
    using path_in_message [of _ issues "''Given invalid '' @ what @ '' data: ''"] by simp
  have e: "store ?s2 = store s \<and> filter is_Statement (trace ?s2) = filter is_Statement (trace s)"
    using verifyAuth_effects [OF assms(4)] by (simp add: filter_emit)
  show ?thesis unfolding h snd_conv by (intro conjI refl f p) (use e in simp_all)
qed

lemma verifyAuth_sample:
  "verifyAuth sample_world (sample_request m p body) sample_state =
     (Inr (Str ''ryanyun2010@gmail.com''),
      \<lparr>store = [],
       trace = [Fetch ''https://oauth2.googleapis.com/tokeninfo?id_token=abc'', ResponseJson,
                SafeParse googleTokenSchema sample_claims]\<rparr>)"
  by (simp add: verifyAuth_def sample_request_def sample_world_def sample_state_def token_of_def
        andThen_def fetch_tokeninfo_def res_json_def zodParseWith_def safeParse_def googleTokenSchema_def
        sample_claims_def sample_zod_def verifyAuth_checks_def emit_def okAsync_def errAsync_def
        allowedEmails_def double_times_sample)

theorem invalid_body_rejected_witness:
  "handler sample_world (sample_request ''POST'' ''/records'' (Arr [sample_record (- 1)])) sample_state =
     (Inl (MalformedRequest ''Given invalid record data: 0.time: Invalid input''),
      \<lparr>store = [],
       trace = [Fetch ''https://oauth2.googleapis.com/tokeninfo?id_token=abc'', ResponseJson,
                SafeParse googleTokenSchema sample_claims, RequestJson,
                SafeParse recordSchema (Arr [sample_record (- 1)])]\<rparr>)"
proof -
  let ?req = "sample_request ''POST'' ''/records'' (Arr [sample_record (- 1)])"
  let ?s1 = "\<lparr>store = ([] :: (string \<times> js list) list),
       trace = [Fetch ''https://oauth2.googleapis.com/tokeninfo?id_token=abc'', ResponseJson,
                SafeParse googleTokenSchema sample_claims]\<rparr>"
  have a: "verifyAuth sample_world ?req sample_state = (Inr (Str ''ryanyun2010@gmail.com''), ?s1)"
    by (rule verifyAuth_sample)
  have b: "safeParse (zodlib sample_world) recordSchema (Arr [sample_record (- 1)])
             = Inl [ZodIssue [Idx 0, Key ''time''] ''Invalid input'']"
    by (simp add: safeParse_def sample_world_def parse_sample_record_bad)
  show ?thesis
    using invalid_body_rejected [of ?req "''/records''" recordSchema "''record''" sample_world sample_state
        "Str ''ryanyun2010@gmail.com''" ?s1 "Arr [sample_record (- 1)]"
        "[ZodIssue [Idx 0, Key ''time''] ''Invalid input'']", OF _ _ _ a _ b, THEN conjunct1]
    by (simp add: sample_request_def zodErrorToHumanReadable_def issue_text_def emit_def string_of_nat.simps digit_def)
qed


lemma safeParse_sample_meet:
  "safeParse (zodlib sample_world) meetSchema sample_meet = Inr sample_meet"
  by (simp add: safeParse_def sample_world_def sample_zod_def meetSchema_def sample_meet_def)

lemma POST_meets_sample_run:
  "handler sample_world (sample_request ''POST'' ''/meets'' sample_meet) sample_state =
     (Inr (NotResponse (Obj [(''success'', Bool True)])),
      \<lparr>store = [(POST_meets_sql, [Str ''Winter Invite'', Str ''Pool'', Num 20240101])],
       trace = [Fetch ''https://oauth2.googleapis.com/tokeninfo?id_token=abc'', ResponseJson,
                SafeParse googleTokenSchema sample_claims, RequestJson,
                SafeParse meetSchema sample_meet,
                Statement POST_meets_sql [Str ''Winter Invite'', Str ''Pool'', Num 20240101]]\<rparr>)"
proof -
  let ?req = "sample_request ''POST'' ''/meets'' sample_meet"
  have r: "handler sample_world ?req sample_state = POST_meets sample_world ?req sample_state"
    by (rule handler_route [of _ "''/meets''"]) (simp_all add: sample_request_def routes_lookup)
  have j: "json ?req = Inr sample_meet" by (simp add: sample_request_def)
  show ?thesis
    unfolding r POST_meets_def mapOk_def after_auth [OF verifyAuth_sample j] safeParse_sample_meet
    by (simp add: queryDB_def sample_world_def emit_def sample_meet_def)
qed

text \<open>
  Claim C1, evaluated on the code. A \<^verbatim>\<open>POST /meets\<close> that passes authentication, whose
  body parses and satisfies the meet schema and whose insert succeeds (the statement is
  in the store afterwards) does not end in a \<^verbatim>\<open>Response\<close> of status 201: the success
  value of the handler is the result object of the storage engine. The sibling routes
  \<^verbatim>\<open>POST /records\<close>, \<^verbatim>\<open>/swimmers\<close> and \<^verbatim>\<open>/relays\<close> map that object to a
  \<^verbatim>\<open>Response\<close> of status 201; this route omits the step.
\<close>

theorem POST_meets_success_is_not_a_response:
  "verifyAuth sample_world (sample_request ''POST'' ''/meets'' sample_meet) sample_state =
     (Inr (Str ''ryanyun2010@gmail.com''),
      \<lparr>store = [],
       trace = [Fetch ''https://oauth2.googleapis.com/tokeninfo?id_token=abc'', ResponseJson,
                SafeParse googleTokenSchema sample_claims]\<rparr>)
   \<and> json (sample_request ''POST'' ''/meets'' sample_meet) = Inr sample_meet
   \<and> safeParse (zodlib sample_world) meetSchema sample_meet = Inr sample_meet
   \<and> store (snd (handler sample_world (sample_request ''POST'' ''/meets'' sample_meet) sample_state))
       = [(POST_meets_sql, [Str ''Winter Invite'', Str ''Pool'', Num 20240101])]
   \<and> fst (handler sample_world (sample_request ''POST'' ''/meets'' sample_meet) sample_state)
       = Inr (NotResponse (Obj [(''success'', Bool True)]))
   \<and> (\<forall>r. fst (handler sample_world (sample_request ''POST'' ''/meets'' sample_meet) sample_state)
       \<noteq> Inr (IsResponse r))"
  by (simp add: POST_meets_sample_run verifyAuth_sample safeParse_sample_meet)
     (simp add: sample_request_def)

text \<open>
  Claim C9, evaluated on the code. On the same request the boundary returns no response
  at all: \<^verbatim>\<open>withCors\<close> is applied to a value without \<^verbatim>\<open>headers\<close> and throws, so no
  response carries the three headers. On every other outcome of the handler (an error or
  a \<^verbatim>\<open>Response\<close>) the headers are attached, see \<open>fetch_attaches_cors\<close> below.
\<close>

theorem fetch_POST_meets_throws:
  "fetch sample_world (sample_request ''POST'' ''/meets'' sample_meet) sample_state =
     (Threw ''TypeError'',
      \<lparr>store = [(POST_meets_sql, [Str ''Winter Invite'', Str ''Pool'', Num 20240101])],
       trace = [Fetch ''https://oauth2.googleapis.com/tokeninfo?id_token=abc'', ResponseJson,
                SafeParse googleTokenSchema sample_claims, RequestJson,
                SafeParse meetSchema sample_meet,
                Statement POST_meets_sql [Str ''Winter Invite'', Str ''Pool'', Num 20240101]]\<rparr>)"
  by (simp add: fetch_def POST_meets_sample_run withCors_def)

lemma POST_meets_never_a_response:
  "fst (POST_meets w req s) \<noteq> Inr (IsResponse r)"
  by (simp add: POST_meets_def mapOk_def split: prod.splits sum.splits)

lemma fetch_attaches_cors:
  assumes "fst (handler w req s) = Inl e \<or> fst (handler w req s) = Inr (IsResponse r0)"
  shows "\<exists>r. fst (fetch w req s) = Returned r
     \<and> map_of (resp_headers r) ''Access-Control-Allow-Origin'' = Some ''https://nuevaswimming.pages.dev''
     \<and> map_of (resp_headers r) ''Access-Control-Allow-Methods'' = Some ''GET, POST, OPTIONS''
     \<and> map_of (resp_headers r) ''Access-Control-Allow-Headers'' = Some ''Content-Type, Authorization''
     \<and> (fst (handler w req s) = Inl e \<longrightarrow>
           resp_status r = status e \<and> resp_body r = Some (name e @ '': '' @ error_message e))
     \<and> (fst (handler w req s) = Inr (IsResponse r0) \<longrightarrow>
           resp_status r = resp_status r0 \<and> resp_body r = resp_body r0)"
  using assms
  by (cases "handler w req s")
     (auto simp: fetch_def withCors_def headers_set_def update_conv' text_response_def)


section \<open>Batched records\<close>

lemma POST_records_valid:
  assumes "url req = Inr ''/records''" and "http_method req = ''POST''"
    and "verifyAuth w req s = (Inr email, s1)"
    and "json req = Inr body"
    and "safeParse (zodlib w) recordSchema body = Inr d"
  shows "handler w req s =
     (case DB_all w (store s) (POST_records_sql @ placeholders d) (values_of d) of
        (Inl e, st) \<Rightarrow>
          (Inl (InternalDatabase (''Records database insertion failed: '' @ e)),
           emit (Statement (POST_records_sql @ placeholders d) (values_of d))
             ((emit (SafeParse recordSchema body) (emit RequestJson s1))\<lparr>store := st\<rparr>))
      | (Inr res, st) \<Rightarrow>
          (Inr (IsResponse (text_response ''Records sucessfully added'' 201)),
           emit (Statement (POST_records_sql @ placeholders d) (values_of d))
             ((emit (SafeParse recordSchema body) (emit RequestJson s1))\<lparr>store := st\<rparr>)))"
proof -
  have r: "handler w req s = POST_records w req s"
    by (rule handler_route [OF assms(1,2)]) (simp add: routes_lookup)
  have st: "store s1 = store s" using verifyAuth_effects [OF assms(3)] by simp
  show ?thesis
    unfolding r POST_records_def after_auth [OF assms(3,4)] assms(5)
    by (simp add: mapOk_def queryDB_def st split: prod.splits sum.splits)
qed

lemma trace_after_statement:
  assumes "verifyAuth w req s = (r, s1)"
  shows "filter is_Statement
           (trace (emit (Statement q bs) ((emit (SafeParse sch body) (emit RequestJson s1))\<lparr>store := st\<rparr>)))
         = filter is_Statement (trace s) @ [Statement q bs]"
  using verifyAuth_effects [OF assms] by (simp add: emit_def)

lemma placeholders_groups: "placeholders (Arr recs) = value_groups (length recs)"
  by (simp add: placeholders_def value_groups_def map_replicate_const)

lemma concat_rows_nth:
  assumes "\<And>x. length (f x) = k" and "i < length xs" and "j < k"
  shows "concat (map f xs) ! (k * i + j) = f (xs ! i) ! j"
  using assms(2)
proof (induction xs arbitrary: i)
  case Nil
  then show ?case by simp
next
  case (Cons x xs)
  show ?case
  proof (cases i)
    case 0
    then show ?thesis using assms(1,3) by (simp add: nth_append)
  next
    case (Suc i')
    then have "i' < length xs" using Cons.prems by simp
    then have "concat (map f xs) ! (k * i' + j) = f (xs ! i') ! j" by (rule Cons.IH)
    moreover have "(f x @ concat (map f xs)) ! (k * Suc i' + j) = concat (map f xs) ! (k * i' + j)"
      using assms(1) [of x] by (simp add: nth_append)
    ultimately show ?thesis using Suc by simp
  qed
qed

lemma values_of_length: "length (values_of (Arr recs)) = 6 * length recs"
  by (induction recs) (simp_all add: values_of_def)

lemma values_of_nth:
  assumes "i < length recs" and "j < 6"
  shows "values_of (Arr recs) ! (6 * i + j) = getprop (recs ! i) (record_columns ! j)"
proof -
  let ?f = "\<lambda>record. [getprop record ''meet_id'', getprop record ''swimmer_id'', getprop record ''event'',
         getprop record ''type'', getprop record ''time'', getprop record ''start'']"
  have "concat (map ?f recs) ! (6 * i + j) = ?f (recs ! i) ! j"
    by (rule concat_rows_nth) (use assms in simp_all)
  moreover have "j = 0 \<or> j = 1 \<or> j = 2 \<or> j = 3 \<or> j = 4 \<or> j = 5" using assms(2) by arith
  then have "?f (recs ! i) ! j = getprop (recs ! i) (record_columns ! j)"
    by (elim disjE) (simp_all add: record_columns_def)
  ultimately show ?thesis by (simp add: values_of_def)
qed

lemma POST_records_sql_columns:
  "POST_records_sql =
     line 5 ''INSERT INTO records'' @ line 5 (''('' @ join '', '' record_columns @ '')'') @ line 5 ''VALUES ''"
  by (simp add: POST_records_sql_def record_columns_def)


text \<open>
  Claim C6. A \<^verbatim>\<open>POST /records\<close> that passes authentication and whose body satisfies the
  record schema, with \<open>N\<close> records as data, executes exactly one statement: the
  \<^verbatim>\<open>INSERT\<close> whose text names the columns \<^verbatim>\<open>(meet_id, swimmer_id, event, type, time, start)\<close>
  and ends in \<open>N\<close> value groups, with \<open>6 * N\<close> bound values in row-major order,
  value \<open>6 * i + j\<close> being column \<open>j\<close> of record \<open>i\<close>. When the engine accepts the
  statement the response has status 201. (Proved for every \<open>N\<close>, zero included.)
\<close>

theorem record_batch_single_insert:
  assumes "url req = Inr ''/records''" and "http_method req = ''POST''"
    and "verifyAuth w req s = (Inr email, s1)"
    and "json req = Inr body"
    and "safeParse (zodlib w) recordSchema body = Inr d"
  shows "\<exists>recs. d = Arr recs
     \<and> filter is_Statement (trace (snd (handler w req s)))
         = filter is_Statement (trace s) @ [Statement (POST_records_sql @ value_groups (length recs)) (values_of d)]
     \<and> POST_records_sql =
         line 5 ''INSERT INTO records'' @ line 5 (''('' @ join '', '' record_columns @ '')'') @ line 5 ''VALUES ''
     \<and> length (values_of d) = 6 * length recs
     \<and> (\<forall>i < length recs. \<forall>j < 6. values_of d ! (6 * i + j) = getprop (recs ! i) (record_columns ! j))
     \<and> (\<forall>res st. DB_all w (store s) (POST_records_sql @ value_groups (length recs)) (values_of d) = (Inr res, st) \<longrightarrow>
           fst (handler w req s) = Inr (IsResponse (text_response ''Records sucessfully added'' 201))
           \<and> store (snd (handler w req s)) = st
           \<and> (\<exists>r. fst (fetch w req s) = Returned r \<and> resp_status r = 201))"
proof -
  obtain xs where d: "d = Arr (map (\<lambda>x. snd (parse (zodlib w) (ZObject
     [(''meet_id'', ZNumber False [NumInt None]),
      (''swimmer_id'', ZNumber False [NumInt None]),
      (''event'', ZEnum allowedEvents),
      (''type'', ZEnum [''individual'', ''relay'']),
      (''start'', ZEnum [''flat'', ''relay'']),
      (''time'', ZNumber False [NumPositive])]) x)) xs)"
    using safeParse_array_data [OF assms(5) [unfolded recordSchema_def]] by blast
  then obtain recs where recs: "d = Arr recs" by blast
  let ?q = "POST_records_sql @ value_groups (length recs)"
  note run = POST_records_valid [OF assms, unfolded recs placeholders_groups]
  have t: "filter is_Statement (trace (snd (handler w req s)))
         = filter is_Statement (trace s) @ [Statement ?q (values_of d)]"
    unfolding run recs
    by (simp add: trace_after_statement [OF assms(3)] split: prod.splits sum.splits)
  have ok: "\<forall>res st. DB_all w (store s) ?q (values_of d) = (Inr res, st) \<longrightarrow>
           fst (handler w req s) = Inr (IsResponse (text_response ''Records sucessfully added'' 201))
           \<and> store (snd (handler w req s)) = st
           \<and> (\<exists>r. fst (fetch w req s) = Returned r \<and> resp_status r = 201)"
  proof (intro allI impI)
    fix res st
    assume a: "DB_all w (store s) ?q (values_of d) = (Inr res, st)"
    have h: "handler w req s =
        (Inr (IsResponse (text_response ''Records sucessfully added'' 201)),
         emit (Statement ?q (values_of (Arr recs)))
           ((emit (SafeParse recordSchema body) (emit RequestJson s1))\<lparr>store := st\<rparr>))"
      unfolding run using a by (simp add: recs)
    show "fst (handler w req s) = Inr (IsResponse (text_response ''Records sucessfully added'' 201))
           \<and> store (snd (handler w req s)) = st
           \<and> (\<exists>r. fst (fetch w req s) = Returned r \<and> resp_status r = 201)"
      unfolding fetch_def h
      by (simp add: withCors_def headers_set_def text_response_def)
  qed
  show ?thesis
    using t ok values_of_length [of recs] values_of_nth [of _ recs] POST_records_sql_columns
    unfolding recs by blast
qed

lemma safeParse_sample_records:
  "safeParse (zodlib sample_world) recordSchema (Arr [sample_record 25, sample_record 26])
     = Inr (Arr [sample_record 25, sample_record 26])"
  by (simp add: safeParse_def sample_world_def sample_zod_def recordSchema_def sample_record_def
      allowedEvents_def)

theorem record_batch_single_insert_witness:
  "filter is_Statement
     (trace (snd (handler sample_world
        (sample_request ''POST'' ''/records'' (Arr [sample_record 25, sample_record 26])) sample_state)))
   = [Statement (POST_records_sql @ ''(?, ?, ?, ?, ?, ?), (?, ?, ?, ?, ?, ?)'')
        [Num 1, Num 1, Str ''50_free'', Str ''individual'', Num 25, Str ''flat'',
         Num 1, Num 1, Str ''50_free'', Str ''individual'', Num 26, Str ''flat'']]"
proof -
  let ?body = "Arr [sample_record 25, sample_record 26]"
  let ?req = "sample_request ''POST'' ''/records'' ?body"
  have u: "url ?req = Inr ''/records''" and m: "http_method ?req = ''POST''" and j: "json ?req = Inr ?body"
    by (simp_all add: sample_request_def)
  obtain recs where recs: "?body = Arr recs"
    and t: "filter is_Statement (trace (snd (handler sample_world ?req sample_state)))
         = filter is_Statement (trace sample_state)
           @ [Statement (POST_records_sql @ value_groups (length recs)) (values_of ?body)]"
    using record_batch_single_insert [OF u m verifyAuth_sample j safeParse_sample_records] by blast
  from recs have "recs = [sample_record 25, sample_record 26]" by simp
  then show ?thesis
    unfolding t
    by (simp add: sample_state_def value_groups_def values_of_def sample_record_def)
qed


lemma safeParse_empty_batch: "safeParse z recordSchema (Arr []) = Inr (Arr [])"
  by (simp add: safeParse_def recordSchema_def)

text \<open>
  Claim C10. On \<^verbatim>\<open>POST /records\<close> with valid authentication and the body \<^verbatim>\<open>[]\<close>, the
  schema accepts the empty array, the handler builds the \<^verbatim>\<open>INSERT\<close> with no value group
  and no bound value and executes it: the request reaches the storage engine. If the
  engine rejects the statement the outcome is \<^verbatim>\<open>InternalDatabase\<close>, rendered with status
  500; if it accepts, the outcome is the 201 response. No error of this request has
  status 400.
\<close>

theorem empty_batch_reaches_storage:
  assumes "url req = Inr ''/records''" and "http_method req = ''POST''"
    and "verifyAuth w req s = (Inr email, s1)"
    and "json req = Inr (Arr [])"
  shows "safeParse (zodlib w) recordSchema (Arr []) = Inr (Arr [])
     \<and> value_groups 0 = [] \<and> values_of (Arr []) = []
     \<and> filter is_Statement (trace (snd (handler w req s)))
         = filter is_Statement (trace s) @ [Statement POST_records_sql []]
     \<and> (case DB_all w (store s) POST_records_sql [] of
           (Inl e, st) \<Rightarrow>
             fst (handler w req s) = Inl (InternalDatabase (''Records database insertion failed: '' @ e))
             \<and> (\<exists>r. fst (fetch w req s) = Returned r \<and> resp_status r = 500)
         | (Inr res, st) \<Rightarrow>
             fst (handler w req s) = Inr (IsResponse (text_response ''Records sucessfully added'' 201)))
     \<and> (\<forall>e. fst (handler w req s) = Inl e \<longrightarrow> status e = 500)"
proof -
  have g: "placeholders (Arr []) = []" "values_of (Arr []) = []" "value_groups 0 = []"
    by (simp_all add: placeholders_def values_of_def value_groups_def)
  note run = POST_records_valid [OF assms safeParse_empty_batch, unfolded g append_Nil2]
  have t: "filter is_Statement (trace (snd (handler w req s)))
         = filter is_Statement (trace s) @ [Statement POST_records_sql []]"
    unfolding run
    by (simp add: trace_after_statement [OF assms(3)] split: prod.splits sum.splits)
  have c: "case DB_all w (store s) POST_records_sql [] of
           (Inl e, st) \<Rightarrow>
             fst (handler w req s) = Inl (InternalDatabase (''Records database insertion failed: '' @ e))
             \<and> (\<exists>r. fst (fetch w req s) = Returned r \<and> resp_status r = 500)
         | (Inr res, st) \<Rightarrow>
             fst (handler w req s) = Inr (IsResponse (text_response ''Records sucessfully added'' 201))"
    unfolding fetch_def run
    by (simp add: withCors_def headers_set_def text_response_def InternalDatabase_def
        split: prod.splits sum.splits)
  have e: "\<forall>e. fst (handler w req s) = Inl e \<longrightarrow> status e = 500"
    unfolding run
    by (auto simp: InternalDatabase_def split: prod.splits sum.splits)
  show ?thesis using g t c e safeParse_empty_batch by blast
qed

lemma verifyAuth_checks_DB_all:
  "verifyAuth_checks (w\<lparr>DB_all := f\<rparr>) = verifyAuth_checks w"
  by (rule ext) (simp add: verifyAuth_checks_def cong: js.case_cong)

lemma zodParseWith_DB_all:
  "zodParseWith (w\<lparr>DB_all := f\<rparr>) sch ef = zodParseWith w sch ef"
  by (rule ext)+ (simp add: zodParseWith_def)

lemma fetch_tokeninfo_DB_all:
  "fetch_tokeninfo (w\<lparr>DB_all := f\<rparr>) u = fetch_tokeninfo w u"
  by (rule ext) (simp add: fetch_tokeninfo_def split: sum.splits)

lemma verifyAuth_DB_all:
  "verifyAuth (w\<lparr>DB_all := f\<rparr>) req = verifyAuth w req"
  by (simp add: verifyAuth_def verifyAuth_checks_DB_all zodParseWith_DB_all fetch_tokeninfo_DB_all
      cong: option.case_cong if_cong)

theorem empty_batch_reaches_storage_witness:
  "fst (handler rejecting_world (sample_request ''POST'' ''/records'' (Arr [])) sample_state)
     = Inl (InternalDatabase ''Records database insertion failed: {}'')
   \<and> filter is_Statement
        (trace (snd (handler rejecting_world (sample_request ''POST'' ''/records'' (Arr [])) sample_state)))
     = [Statement POST_records_sql []]"
proof -
  let ?req = "sample_request ''POST'' ''/records'' (Arr [])"
  have u: "url ?req = Inr ''/records''" and m: "http_method ?req = ''POST''" and j: "json ?req = Inr (Arr [])"
    by (simp_all add: sample_request_def)
  have v: "verifyAuth rejecting_world ?req sample_state =
     (Inr (Str ''ryanyun2010@gmail.com''),
      \<lparr>store = [],
       trace = [Fetch ''https://oauth2.googleapis.com/tokeninfo?id_token=abc'', ResponseJson,
                SafeParse googleTokenSchema sample_claims]\<rparr>)"
    unfolding rejecting_world_def verifyAuth_DB_all by (rule verifyAuth_sample)
  note inst = empty_batch_reaches_storage [OF u m v j]
  have d: "DB_all rejecting_world (store sample_state) POST_records_sql [] = (Inl ''{}'', [])"
    by (simp add: rejecting_world_def sample_state_def)
  have a: "fst (handler rejecting_world ?req sample_state)
     = Inl (InternalDatabase ''Records database insertion failed: {}'')"
    using inst [THEN conjunct2, THEN conjunct2, THEN conjunct2, THEN conjunct2, THEN conjunct1]
    unfolding d by simp
  have b: "filter is_Statement (trace (snd (handler rejecting_world ?req sample_state)))
     = [Statement POST_records_sql []]"
    using inst [THEN conjunct2, THEN conjunct2, THEN conjunct2, THEN conjunct1]
    by (simp add: sample_state_def)
  show ?thesis using a b by (rule conjI)
qed


section \<open>Authentication\<close>

lemma verifyAuth_reaches_checks:
  assumes "Authorization req = Some authHeader" and "prefix ''Bearer '' authHeader"
    and "tokeninfo w (''https://oauth2.googleapis.com/tokeninfo?id_token='' @ token_of authHeader) = Inr (Inr j)"
    and "safeParse (zodlib w) googleTokenSchema j = Inr payload"
  shows "fst (verifyAuth w req s) = fst (verifyAuth_checks w payload s')"
proof -
  have "fst (verifyAuth_checks w payload s1) = fst (verifyAuth_checks w payload s')" for s1
    by (simp add: verifyAuth_checks_def okAsync_def errAsync_def)
  then show ?thesis
    using assms
    by (simp add: verifyAuth_def andThen_def fetch_tokeninfo_def res_json_def zodParseWith_def)
qed

lemma checks_refine:
  "fst (verifyAuth_checks w payload s) =
     (case first_failure (checks_in_order w payload) of
        Some e \<Rightarrow> Inl e
      | None \<Rightarrow> Inr (getprop payload ''email''))"
  by (simp add: verifyAuth_checks_def checks_in_order_def okAsync_def errAsync_def)

text \<open>
  Claim C3. For every claims payload that passes the shape validation, the result of
  \<^verbatim>\<open>verifyAuth\<close> is the error of the first failing check in the order audience, email
  verified, email present, issuer, expiry, allow-list, and the email when none fails. In
  particular a payload with a wrong audience and an email that is not verified gives the
  \<^verbatim>\<open>Unauthorized\<close> error whose message contains \<^verbatim>\<open>Incorrect Audience\<close>.
\<close>

theorem verifyAuth_check_order:
  assumes "Authorization req = Some authHeader" and "prefix ''Bearer '' authHeader"
    and "tokeninfo w (''https://oauth2.googleapis.com/tokeninfo?id_token='' @ token_of authHeader) = Inr (Inr j)"
    and "safeParse (zodlib w) googleTokenSchema j = Inr payload"
  shows "fst (verifyAuth w req s) =
           (case first_failure (checks_in_order w payload) of
              Some e \<Rightarrow> Inl e
            | None \<Rightarrow> Inr (getprop payload ''email''))
       \<and> map snd (checks_in_order w payload) =
           [Unauthorized ''Authorization Token gave Incorrect Audience'',
            Unauthorized ''Authentication Token gave an Email which could not be verified'',
            Unauthorized ''Authentication Token did not correspond to an Email'',
            Unauthorized ''Invalid token issuer'',
            Unauthorized ''Token expired'',
            Unauthorized ''Email is unauthorized'']
       \<and> (getprop payload ''aud'' \<noteq> Str (GOOGLE_CLIENT_ID w) \<and> getprop payload ''email_verified'' \<noteq> Str ''true'' \<longrightarrow>
            fst (verifyAuth w req s) = Inl (Unauthorized ''Authorization Token gave Incorrect Audience'')
            \<and> sublist ''Incorrect Audience'' (error_message (Unauthorized ''Authorization Token gave Incorrect Audience'')))"
proof -
  have v: "fst (verifyAuth w req s) = fst (verifyAuth_checks w payload s)"
    by (rule verifyAuth_reaches_checks [OF assms])
  have a: "fst (verifyAuth w req s) =
           (case first_failure (checks_in_order w payload) of
              Some e \<Rightarrow> Inl e
            | None \<Rightarrow> Inr (getprop payload ''email''))"
    unfolding v by (rule checks_refine)
  have b: "map snd (checks_in_order w payload) =
           [Unauthorized ''Authorization Token gave Incorrect Audience'',
            Unauthorized ''Authentication Token gave an Email which could not be verified'',
            Unauthorized ''Authentication Token did not correspond to an Email'',
            Unauthorized ''Invalid token issuer'',
            Unauthorized ''Token expired'',
            Unauthorized ''Email is unauthorized'']"
    by (simp add: checks_in_order_def)
  have "''Authorization Token gave Incorrect Audience'' = ''Authorization Token gave '' @ ''Incorrect Audience''"
    by simp
  then have s: "sublist ''Incorrect Audience'' (error_message (Unauthorized ''Authorization Token gave Incorrect Audience''))"
    unfolding Unauthorized_def ErrorRes.sel by (metis sublist_append_leftI)
  have c: "getprop payload ''aud'' \<noteq> Str (GOOGLE_CLIENT_ID w) \<Longrightarrow>
            fst (verifyAuth w req s) = Inl (Unauthorized ''Authorization Token gave Incorrect Audience'')"
    unfolding a by (simp add: checks_in_order_def)
  show ?thesis using a b c s by blast
qed


lemma safeParse_unverified_claims:
  "safeParse (zodlib unverified_world) googleTokenSchema unverified_claims = Inr unverified_claims"
  by (simp add: safeParse_def unverified_world_def sample_world_def sample_zod_def googleTokenSchema_def
      unverified_claims_def)

theorem verifyAuth_check_order_witness:
  "fst (verifyAuth unverified_world (sample_request ''POST'' ''/verify'' Null) sample_state)
     = Inl (Unauthorized ''Authorization Token gave Incorrect Audience'')"
proof -
  let ?req = "sample_request ''POST'' ''/verify'' Null"
  have h: "Authorization ?req = Some ''Bearer abc''" and p: "prefix ''Bearer '' ''Bearer abc''"
    by (simp_all add: sample_request_def)
  have t: "tokeninfo unverified_world (''https://oauth2.googleapis.com/tokeninfo?id_token='' @ token_of ''Bearer abc'')
      = Inr (Inr unverified_claims)"
    by (simp add: unverified_world_def)
  have c: "getprop unverified_claims ''aud'' \<noteq> Str (GOOGLE_CLIENT_ID unverified_world)
      \<and> getprop unverified_claims ''email_verified'' \<noteq> Str ''true''"
    by (simp add: unverified_claims_def unverified_world_def sample_world_def)
  show ?thesis
    using verifyAuth_check_order [OF h p t safeParse_unverified_claims, of sample_state,
        THEN conjunct2, THEN conjunct2] c
    by blast
qed

lemma object_data_lookup:
  assumes "distinct (map fst shape)" and "(k, sch) \<in> set shape"
  shows "getprop (Obj (filter (\<lambda>(k, d). d \<noteq> Undefined) (map (\<lambda>(k, sch). (k, g k sch)) shape))) k = g k sch"
  using assms
proof (induction shape)
  case Nil
  then show ?case by simp
next
  case (Cons a shape)
  obtain k' sch' where a: "a = (k', sch')" by (cases a)
  show ?case
  proof (cases "k' = k")
    case True
    then have same: "sch' = sch"
      using Cons.prems a by (auto simp: image_iff)
    have absent: "map_of (filter (\<lambda>(k, d). d \<noteq> Undefined) (map (\<lambda>(k, sch). (k, g k sch)) shape)) k = None"
      using Cons.prems(1) a True by (auto simp: map_of_eq_None_iff image_iff)
    show ?thesis using a True same absent by simp
  next
    case False
    then have "(k, sch) \<in> set shape" using Cons.prems a by auto
    moreover have "distinct (map fst shape)" using Cons.prems by simp
    ultimately have "getprop (Obj (filter (\<lambda>(k, d). d \<noteq> Undefined) (map (\<lambda>(k, sch). (k, g k sch)) shape))) k = g k sch"
      by (rule Cons.IH [rotated])
    then show ?thesis using a False by simp
  qed
qed

lemma safeParse_object_field:
  assumes "safeParse z (ZObject shape) v = Inr d" and "distinct (map fst shape)" and "(k, sch) \<in> set shape"
  shows "safeParse z sch (getprop v k) = Inr (getprop d k)"
proof -
  obtain kvs where v: "v = Obj kvs"
    using assms(1) by (cases v) (auto simp: safeParse_def)
  have none: "concat (map (\<lambda>(k, sch). map (under (Key k)) (fst (parse z sch (getprop v k)))) shape) = []"
    and d: "d = Obj (filter (\<lambda>(k, d). d \<noteq> Undefined) (map (\<lambda>(k, sch). (k, snd (parse z sch (getprop v k)))) shape))"
    using assms(1) unfolding v by (auto simp: safeParse_def split: if_splits)
  have "map (under (Key k)) (fst (parse z sch (getprop v k))) = []"
    using none assms(3) by (auto simp: image_iff)
  then have ok: "fst (parse z sch (getprop v k)) = []" by simp
  have "getprop d k = snd (parse z sch (getprop v k))"
    unfolding d by (rule object_data_lookup [OF assms(2,3)])
  then show ?thesis using ok by (cases "parse z sch (getprop v k)") (simp add: safeParse_def)
qed

lemma safeParse_number_data:
  assumes "safeParse z (ZNumber c cs) v = Inr d"
  shows "\<exists>r. d = Num r"
  using assms
  by (auto simp: safeParse_def issue_def split: if_splits js.splits option.splits)

lemma validated_exp_is_number:
  assumes "safeParse z googleTokenSchema j = Inr payload"
  shows "\<exists>e. getprop payload ''exp'' = Num e"
proof -
  have "safeParse z (ZNumber True []) (getprop j ''exp'') = Inr (getprop payload ''exp'')"
    by (rule safeParse_object_field [OF assms [unfolded googleTokenSchema_def]]) simp_all
  then show ?thesis by (metis safeParse_number_data)
qed


lemma verifyAuth_sample_at:
  "fst (verifyAuth (sample_world_at t) (sample_request m p body) sample_state) =
     (if 1700003600 * 1000 < t then Inl (Unauthorized ''Token expired'')
      else Inr (Str ''ryanyun2010@gmail.com''))"
  by (simp add: verifyAuth_def sample_request_def sample_world_at_def sample_world_def sample_state_def
        token_of_def andThen_def fetch_tokeninfo_def res_json_def zodParseWith_def safeParse_def
        googleTokenSchema_def sample_claims_def sample_zod_def verifyAuth_checks_def emit_def
        okAsync_def errAsync_def allowedEmails_def double_times_sample)

text \<open>
  Claim C4 as stated fails on the code. The source rejects a token when
  \<^verbatim>\<open>payload.exp * 1000 < Date.now()\<close>; at \<^verbatim>\<open>exp * 1000\<close> equal to the current time the
  comparison is false, the check passes and, for the administrator's claims, the token is
  accepted, where the claim says \<^verbatim>\<open>Unauthorized("Token expired")\<close>.
\<close>

theorem expiry_equal_to_now_is_accepted:
  "getprop sample_claims ''exp'' = Num 1700003600
   \<and> double_times 1700003600 1000 = 1700003600 * 1000
   \<and> now (sample_world_at 1700003600000) = 1700003600 * 1000
   \<and> fst (verifyAuth (sample_world_at 1700003600000) (sample_request ''POST'' ''/verify'' Null) sample_state)
       = Inr (Str ''ryanyun2010@gmail.com'')
   \<and> fst (verifyAuth (sample_world_at 1700003600000) (sample_request ''POST'' ''/verify'' Null) sample_state)
       \<noteq> Inl (Unauthorized ''Token expired'')"
  by (simp add: verifyAuth_sample_at double_times_sample) (simp add: sample_claims_def sample_world_at_def)

text \<open>
  The product is rounded as the source rounds it: a token whose \<^verbatim>\<open>exp * 1000\<close> lies
  below the current time as a real, and rounds to it as a double, passes the check.
\<close>

lemma expiry_rounding_to_now_is_accepted:
  "17000036000009999 / 10000000 * 1000 < now (sample_world_at 1700003600001)
   \<and> fst (verifyAuth_checks (sample_world_at 1700003600001) fractional_claims sample_state)
       = Inr (Str ''ryanyun2010@gmail.com'')"
  by (simp add: verifyAuth_checks_def fractional_claims_def sample_world_at_def sample_world_def
      okAsync_def allowedEmails_def double_times_rounds_up)

text \<open>
  Claim C4, amended. For every claims payload that passes the shape validation and the
  checks before the expiry check (audience, email verified, email present, issuer),
  \<^verbatim>\<open>exp\<close> is a number and \<^verbatim>\<open>verifyAuth\<close> returns \<^verbatim>\<open>Unauthorized("Token expired")\<close>
  exactly when the product \<^verbatim>\<open>exp * 1000\<close>, as double arithmetic computes it, is strictly
  less than the current time; when that product is greater than or equal to the current
  time the check passes and the result is that of the allow-list check. When
  \<^verbatim>\<open>exp * 1000\<close> is an integer of magnitude below \<open>2 ^ 53\<close>, as for an expiry in whole
  seconds, the product is exact.
\<close>

theorem expiry_check:
  assumes "Authorization req = Some authHeader" and "prefix ''Bearer '' authHeader"
    and "tokeninfo w (''https://oauth2.googleapis.com/tokeninfo?id_token='' @ token_of authHeader) = Inr (Inr j)"
    and "safeParse (zodlib w) googleTokenSchema j = Inr payload"
    and "getprop payload ''aud'' = Str (GOOGLE_CLIENT_ID w)"
    and "getprop payload ''email_verified'' = Str ''true''"
    and "getprop payload ''email'' \<noteq> Undefined" and "getprop payload ''email'' \<noteq> Null"
    and "getprop payload ''iss'' = Str ''https://accounts.google.com''
         \<or> getprop payload ''iss'' = Str ''accounts.google.com''"
  shows "\<exists>e. getprop payload ''exp'' = Num e
     \<and> (fst (verifyAuth w req s) = Inl (Unauthorized ''Token expired'') \<longleftrightarrow> double_times e 1000 < now w)
     \<and> (now w \<le> double_times e 1000 \<longrightarrow>
          fst (verifyAuth w req s) =
            (if getprop payload ''email'' \<in> set (map Str allowedEmails)
             then Inr (getprop payload ''email'')
             else Inl (Unauthorized ''Email is unauthorized'')))
     \<and> (\<forall>m. e * 1000 = of_int m \<and> \<bar>m\<bar> < 2 ^ 53 \<longrightarrow> double_times e 1000 = e * 1000)"
proof -
  obtain e where e: "getprop payload ''exp'' = Num e"
    using validated_exp_is_number [OF assms(4)] by blast
  have v: "fst (verifyAuth w req s) = fst (verifyAuth_checks w payload s)"
    by (rule verifyAuth_reaches_checks [OF assms(1-4)])
  have r: "fst (verifyAuth_checks w payload s) =
     (if double_times e 1000 < now w then Inl (Unauthorized ''Token expired'')
      else if getprop payload ''email'' \<in> set (map Str allowedEmails)
        then Inr (getprop payload ''email'')
      else Inl (Unauthorized ''Email is unauthorized''))"
    using assms(5-9) e
    by (auto simp: verifyAuth_checks_def okAsync_def errAsync_def)
  have ne: "Unauthorized ''Email is unauthorized'' \<noteq> Unauthorized ''Token expired''"
    by (simp add: Unauthorized_def)
  have a: "fst (verifyAuth w req s) = Inl (Unauthorized ''Token expired'') \<longleftrightarrow> double_times e 1000 < now w"
    unfolding v r using ne by simp
  have b: "now w \<le> double_times e 1000 \<longrightarrow>
          fst (verifyAuth w req s) =
            (if getprop payload ''email'' \<in> set (map Str allowedEmails)
             then Inr (getprop payload ''email'')
             else Inl (Unauthorized ''Email is unauthorized''))"
    unfolding v r by simp
  have c: "\<forall>m. e * 1000 = of_int m \<and> \<bar>m\<bar> < 2 ^ 53 \<longrightarrow> double_times e 1000 = e * 1000"
    using double_times_exact [of e 1000] by blast
  show ?thesis using e a b c by blast
qed

lemma safeParse_sample_claims:
  "safeParse sample_zod googleTokenSchema sample_claims = Inr sample_claims"
  by (simp add: safeParse_def sample_zod_def googleTokenSchema_def sample_claims_def)

theorem expiry_check_witness:
  "fst (verifyAuth (sample_world_at 1800000000000) (sample_request ''POST'' ''/verify'' Null) sample_state)
     = Inl (Unauthorized ''Token expired'')"
proof -
  let ?w = "sample_world_at 1800000000000"
  let ?req = "sample_request ''POST'' ''/verify'' Null"
  have h: "Authorization ?req = Some ''Bearer abc''" and p: "prefix ''Bearer '' ''Bearer abc''"
    by (simp_all add: sample_request_def)
  have t: "tokeninfo ?w (''https://oauth2.googleapis.com/tokeninfo?id_token='' @ token_of ''Bearer abc'')
      = Inr (Inr sample_claims)"
    by (simp add: sample_world_at_def sample_world_def)
  have z: "safeParse (zodlib ?w) googleTokenSchema sample_claims = Inr sample_claims"
    using safeParse_sample_claims by (simp add: sample_world_at_def sample_world_def)
  have c: "getprop sample_claims ''aud'' = Str (GOOGLE_CLIENT_ID ?w)"
    "getprop sample_claims ''email_verified'' = Str ''true''"
    "getprop sample_claims ''email'' \<noteq> Undefined" "getprop sample_claims ''email'' \<noteq> Null"
    "getprop sample_claims ''iss'' = Str ''https://accounts.google.com''
       \<or> getprop sample_claims ''iss'' = Str ''accounts.google.com''"
    by (simp_all add: sample_claims_def sample_world_at_def sample_world_def)
  obtain e where e: "getprop sample_claims ''exp'' = Num e"
    and iff: "fst (verifyAuth ?w ?req sample_state) = Inl (Unauthorized ''Token expired'') \<longleftrightarrow> double_times e 1000 < now ?w"
    and exact: "\<forall>m. e * 1000 = of_int m \<and> \<bar>m\<bar> < 2 ^ 53 \<longrightarrow> double_times e 1000 = e * 1000"
    using expiry_check [OF h p t z c, of sample_state] by blast
  from e have v: "e = 1700003600" by (simp add: sample_claims_def)
  have "double_times e 1000 = e * 1000"
    using exact [rule_format, of 1700003600000] by (simp add: v)
  then have "double_times e 1000 < now ?w" by (simp add: v sample_world_at_def)
  then show ?thesis using iff by simp
qed


end
